theory Spec2Isabelle
  imports
    Complex_Main
    "HOL-Library.Word"
    "HOL-Library.Multiset"
    "HOL-Library.AList"
    "HOL-Library.Char_ord"
    "HOL-Library.List_Lexorder"
begin

section \<open>Data model\<close>

text \<open>
  Bytes are 8-bit words; a \<open>Path\<close> is the list of its parts, which is what pathlib
  compares when paths are sorted; the paths of files inside \<open>CACHE_DIR\<close> are kept as
  the name relative to that directory.
\<close>

type_synonym byte = "8 word"
type_synonym bytes = "byte list"
type_synonym path = "string list"
type_synonym image = bytes

text \<open>
  Values that \<open>json.loads\<close> returns and \<open>json.dump\<close> accepts. A Python dict keeps
  insertion order, so an object is an association list: \<open>map_of\<close> is \<open>dict.get\<close>
  and \<open>AList.update\<close> is item assignment. Floating-point numbers are left out: the
  program itself only ever stores integers (\<open>int(st.st_mtime)\<close>, \<open>st.st_size\<close>).
\<close>

datatype json =
    JNull
  | JBool bool
  | JInt int
  | JStr string
  | JArr "json list"
  | JObj "(string \<times> json) list"

text \<open>
  What a file of the cache directory holds: text that \<open>json.loads\<close> parses to a
  value, or anything else (not JSON, a partially written document, an unreadable
  entry), for which \<open>read_text\<close> followed by \<open>json.loads\<close> raises.
\<close>

datatype content = Unparsable | Parsed json

type_synonym files = "string \<rightharpoonup> content"

datatype py_error =
    SystemExit
  | OSError
  | AttributeError
  | KeyError
  | TypeError
  | UnboundLocalError
  | BrokenProcessPool
  | ValueError
  | OverflowError
  | MemoryError

datatype write_outcome = WriteOk | OpenFails | WriteFailsPartway

record stat_result =
  st_mtime :: rat
  st_size :: int

record dir_entry =
  entry_name :: string
  is_file :: bool
  resolved :: path

text \<open>
  Everything the program reads from outside itself: the file system below
  \<open>SOURCE_DIR\<close>, hashlib, pdf2image, PIL and pytesseract, the process pool and the
  faults of the cache directory. \<open>None\<close> stands for a call that raises.
  \<^item> \<open>listdir d\<close>: the entries of directory \<open>d\<close> in \<open>iterdir\<close> order, \<open>None\<close>
    when \<open>Path(d).is_dir()\<close> is false;
  \<^item> \<open>resolve_str p\<close> is \<open>str(p.resolve())\<close>;
  \<^item> \<open>can_allocate n\<close>: the interpreter finds the memory for a \<open>bytes\<close> object of
    \<open>n\<close> bytes (otherwise the read that asks for it raises \<open>MemoryError\<close>);
  \<^item> \<open>sha256\<close> is the SHA-256 function of hashlib, on the whole message;
  \<^item> \<open>image_to_string tcmd lang png\<close>: \<open>Image.open\<close>, the RGB conversion and
    \<open>pytesseract.image_to_string\<close> together;
  \<^item> \<open>map_breaks = Some k\<close>: the iterator of \<open>Executor.map\<close> raises when the result
    of task \<open>k\<close> (0-based) is retrieved, after having yielded \<open>k\<close> results;
  \<^item> \<open>pool_broken\<close>: \<open>Executor.submit\<close> raises in the fallback;
  \<^item> \<open>finish_time n\<close>: when the future of page \<open>n\<close> completes, which is the order
    \<open>as_completed\<close> yields in; \<open>future_raises n\<close>: its \<open>result()\<close> raises;
  \<^item> \<open>write_outcome name\<close>, \<open>replace_ok name\<close>: whether writing, respectively
    renaming, the file \<open>name\<close> of the cache directory succeeds.
\<close>

record env =
  listdir :: "string \<Rightarrow> dir_entry list option"
  resolve_str :: "path \<Rightarrow> string"
  stat :: "path \<Rightarrow> stat_result option"
  read_file :: "path \<Rightarrow> bytes option"
  can_allocate :: "int \<Rightarrow> bool"
  sha256 :: "bytes \<Rightarrow> 256 word"
  convert_from_path :: "path \<Rightarrow> image list option"
  png_bytes :: "image \<Rightarrow> bytes"
  image_to_string :: "string \<Rightarrow> string \<Rightarrow> bytes \<Rightarrow> string option"
  tesseract_cmd :: "string option"
  map_breaks :: "nat option"
  pool_broken :: bool
  finish_time :: "nat \<Rightarrow> nat"
  future_raises :: "nat \<Rightarrow> bool"
  write_outcome :: "string \<Rightarrow> write_outcome"
  replace_ok :: "string \<Rightarrow> bool"

section \<open>file_sha256\<close>

text \<open>
  \<open>f.read(block_size)\<close> of the buffered reader on what is left of the file, as
  CPython does it on a 64-bit platform. The size is converted to a \<open>Py_ssize_t\<close>
  (\<open>OverflowError\<close> outside its range); a size below \<open>-1\<close> is refused with
  \<open>ValueError\<close>; \<open>-1\<close> reads everything that is left, into a \<open>bytes\<close> object of
  that length; any other size first allocates a \<open>bytes\<close> object of that size
  (\<open>PyBytes_FromStringAndSize\<close>: \<open>OverflowError\<close> when the size and the object
  header together exceed \<open>PY_SSIZE_T_MAX\<close>, \<open>MemoryError\<close> when the memory is not
  there; the empty object needs none) and returns at most that many bytes.
\<close>

definition PY_SSIZE_T_MAX :: int where
  "PY_SSIZE_T_MAX = 2 ^ 63 - 1"

definition PyBytesObject_SIZE :: int where
  "PyBytesObject_SIZE = 33"

definition bytes_new :: "env \<Rightarrow> int \<Rightarrow> py_error + unit" where
  "bytes_new e n =
     (if PY_SSIZE_T_MAX - PyBytesObject_SIZE < n then Inl OverflowError
      else if 0 < n \<and> \<not> can_allocate e n then Inl MemoryError
      else Inr ())"

definition f_read :: "env \<Rightarrow> int \<Rightarrow> bytes \<Rightarrow> py_error + bytes" where
  "f_read e block_size rest =
     (if block_size < - PY_SSIZE_T_MAX - 1 \<or> PY_SSIZE_T_MAX < block_size
      then Inl OverflowError
      else if block_size < - 1 then Inl ValueError
      else if block_size = - 1
      then (case bytes_new e (int (length rest)) of
              Inl err \<Rightarrow> Inl err
            | Inr u \<Rightarrow> Inr rest)
      else (case bytes_new e block_size of
              Inl err \<Rightarrow> Inl err
            | Inr u \<Rightarrow> Inr (take (nat block_size) rest)))"

text \<open>\<open>iter(lambda: f.read(block_size), b"")\<close>: the chunks read until the first
  empty one; an exception of a read ends the loop and the call.\<close>

function read_chunks :: "env \<Rightarrow> int \<Rightarrow> bytes \<Rightarrow> py_error + bytes list" where
  "read_chunks e block_size rest =
     (case f_read e block_size rest of
        Inl err \<Rightarrow> Inl err
      | Inr chunk \<Rightarrow>
          if chunk = [] then Inr []
          else (case read_chunks e block_size (drop (length chunk) rest) of
                  Inl err \<Rightarrow> Inl err
                | Inr chunks \<Rightarrow> Inr (chunk # chunks)))"
  by pat_completeness auto
termination
  by (relation "measure (\<lambda>(e, n, rest). length rest)")
     (auto simp: f_read_def split: if_splits sum.splits)

declare read_chunks.simps [simp del]

text \<open>The hashlib object is modelled by the bytes it has been fed: \<open>update\<close> appends
  (\<open>m.update(a); m.update(b)\<close> is \<open>m.update(a+b)\<close>), \<open>hexdigest\<close> hashes them and
  prints the 256 bits as 64 lower-case hexadecimal digits.\<close>

definition h_update :: "bytes \<Rightarrow> bytes \<Rightarrow> bytes" where
  "h_update h chunk = h @ chunk"

definition hex_digit :: "nat \<Rightarrow> char" where
  "hex_digit d = ''0123456789abcdef'' ! d"

fun hex_digits :: "nat \<Rightarrow> nat \<Rightarrow> string" where
  "hex_digits 0 v = []"
| "hex_digits (Suc k) v = hex_digits k (v div 16) @ [hex_digit (v mod 16)]"

definition hex_of :: "256 word \<Rightarrow> string" where
  "hex_of d = hex_digits 64 (unat d)"

definition h_hexdigest :: "env \<Rightarrow> bytes \<Rightarrow> string" where
  "h_hexdigest e h = hex_of (sha256 e h)"

definition file_sha256 :: "env \<Rightarrow> path \<Rightarrow> int \<Rightarrow> py_error + string" where
  "file_sha256 e p block_size =
     (case read_file e p of
        None \<Rightarrow> Inl OSError
      | Some content \<Rightarrow>
          (case read_chunks e block_size content of
             Inl err \<Rightarrow> Inl err
           | Inr chunks \<Rightarrow> Inr (h_hexdigest e (foldl h_update [] chunks))))"

section \<open>list_pdf_files\<close>

text \<open>\<open>PurePath.suffix\<close>: with \<open>i = name.rfind('.')\<close>, the suffix is \<open>name[i:]\<close>
  when \<open>0 < i < len(name) - 1\<close> and empty otherwise.\<close>

definition path_suffix :: "string \<Rightarrow> string" where
  "path_suffix name =
     (let after = rev (takeWhile (\<lambda>c. c \<noteq> CHR ''.'') (rev name))
      in if CHR ''.'' \<notin> set name then ''''
         else if after = [] then ''''
         else if length after + 1 = length name then ''''
         else CHR ''.'' # after)"

definition lower_char :: "char \<Rightarrow> char" where
  "lower_char c =
     (if (65::nat) \<le> of_char c \<and> of_char c \<le> (90::nat)
      then char_of (of_char c + (32::nat)) else c)"

definition str_lower :: "string \<Rightarrow> string" where
  "str_lower s = map lower_char s"

definition is_pdf :: "dir_entry \<Rightarrow> bool" where
  "is_pdf f \<longleftrightarrow> is_file f \<and> str_lower (path_suffix (entry_name f)) = ''.pdf''"

text \<open>\<open>sorted\<close> orders the resolved paths as pathlib compares them on POSIX:
  part by part, each part by code point.\<close>

definition list_pdf_files :: "env \<Rightarrow> string \<Rightarrow> py_error + path list" where
  "list_pdf_files e src_dir =
     (case listdir e src_dir of
        None \<Rightarrow> Inl SystemExit
      | Some entries \<Rightarrow> Inr (sort (map resolved (filter is_pdf entries))))"

section \<open>ocr_bytes_worker and the process pool\<close>

text \<open>A task is the tuple \<open>(image_bytes, page_no, tesseract_cmd_or_empty,
  lang_or_empty)\<close> handed to a worker.\<close>

type_synonym task = "bytes \<times> nat \<times> string \<times> string"

definition task_page :: "task \<Rightarrow> nat" where
  "task_page t = (case t of (image_bytes, page_no, tcmd, lang) \<Rightarrow> page_no)"

text \<open>The worker catches every exception of opening and recognising the image and
  returns the empty text for it.\<close>

definition ocr_bytes_worker :: "env \<Rightarrow> task \<Rightarrow> nat \<times> string" where
  "ocr_bytes_worker e args =
     (case args of (image_bytes, page_no, tcmd, lang) \<Rightarrow>
        (page_no,
         case image_to_string e tcmd lang image_bytes of
           None \<Rightarrow> ''''
         | Some text \<Rightarrow> text))"

text \<open>The tasks, numbered from 1 (\<open>enumerate(images, start=1)\<close>); \<open>OCR_LANG\<close> is
  \<open>None\<close>, so the language is empty.\<close>

definition make_tasks :: "env \<Rightarrow> image list \<Rightarrow> task list" where
  "make_tasks e images =
     map (\<lambda>(i, img).
            (png_bytes e img, i,
             (case tesseract_cmd e of None \<Rightarrow> '''' | Some c \<Rightarrow> c), ''''))
         (enumerate 1 images)"

text \<open>\<open>ex.map(ocr_bytes_worker, tasks)\<close> yields the results in the order of the
  tasks; the second component tells whether the iterator raised.\<close>

definition executor_map :: "env \<Rightarrow> task list \<Rightarrow> (nat \<times> string) list \<times> bool" where
  "executor_map e tasks =
     (case map_breaks e of
        None \<Rightarrow> (map (ocr_bytes_worker e) tasks, False)
      | Some k \<Rightarrow>
          if k < length tasks then (map (ocr_bytes_worker e) (take k tasks), True)
          else (map (ocr_bytes_worker e) tasks, False))"

text \<open>\<open>as_completed\<close> yields the futures as they finish.\<close>

definition as_completed :: "env \<Rightarrow> task list \<Rightarrow> task list" where
  "as_completed e tasks = sort_key (\<lambda>t. finish_time e (task_page t)) tasks"

text \<open>The fallback loop: a future whose \<open>result()\<close> raises is reported and left
  out.\<close>

definition fallback_collect :: "env \<Rightarrow> task list \<Rightarrow> (nat \<times> string) list" where
  "fallback_collect e tasks =
     concat (map (\<lambda>t. if future_raises e (task_page t) then []
                       else [ocr_bytes_worker e t])
                 (as_completed e tasks))"

text \<open>The body of the \<open>with ProcessPoolExecutor\<close> block: the pairs appended to
  \<open>pages_text\<close>. A worker always returns a number as \<open>page_no\<close>, so the tests
  \<open>page_no is None\<close> never hold. When \<open>ex.map\<close> raised, what it had yielded stays
  in the list and every task is submitted again.\<close>

definition run_pool :: "env \<Rightarrow> task list \<Rightarrow> py_error + (nat \<times> string) list" where
  "run_pool e tasks =
     (case executor_map e tasks of
        (got, raised) \<Rightarrow>
          if \<not> raised then Inr got
          else if pool_broken e then Inl BrokenProcessPool
          else Inr (got @ fallback_collect e tasks))"

text \<open>\<open>pages_text.sort(key=lambda x: x[0])\<close>, a stable sort, and then the texts.\<close>

definition collect_pages :: "(nat \<times> string) list \<Rightarrow> string list" where
  "collect_pages pairs = map snd (sort_key fst pairs)"

section \<open>The cache directory\<close>

definition INDEX_FILE :: string where
  "INDEX_FILE = ''ocr_index.json''"

text \<open>\<open>path.with_suffix(path.suffix + ".tmp")\<close> appends \<open>.tmp\<close> to the name; the
  temporary file lies in the directory of the destination.\<close>

definition tmp_of :: "string \<Rightarrow> string" where
  "tmp_of name = name @ ''.tmp''"

datatype fs_op = WriteText string json | Replace string string

fun apply_op :: "fs_op \<Rightarrow> files \<Rightarrow> files" where
  "apply_op (WriteText name obj) fs = fs(name \<mapsto> Parsed obj)"
| "apply_op (Replace src dst) fs =
     (case fs src of None \<Rightarrow> fs | Some c \<Rightarrow> fs(dst \<mapsto> c, src := None))"

text \<open>Running file operations under the faults of the environment: the result, the
  files afterwards and the operations that were completed. A write that fails
  part-way leaves a truncated document behind; renaming a file that does not exist
  fails.\<close>

definition can_replace :: "env \<Rightarrow> files \<Rightarrow> string \<Rightarrow> bool" where
  "can_replace e fs src \<longleftrightarrow> replace_ok e src \<and> fs src \<noteq> None"

fun run_ops :: "env \<Rightarrow> fs_op list \<Rightarrow> files \<Rightarrow> (py_error + unit) \<times> files \<times> fs_op list" where
  "run_ops e [] fs = (Inr (), fs, [])"
| "run_ops e (WriteText name obj # ops) fs =
     (case write_outcome e name of
        OpenFails \<Rightarrow> (Inl OSError, fs, [])
      | WriteFailsPartway \<Rightarrow> (Inl OSError, fs(name \<mapsto> Unparsable), [])
      | WriteOk \<Rightarrow>
          (case run_ops e ops (apply_op (WriteText name obj) fs) of
             (r, fs', completed) \<Rightarrow> (r, fs', WriteText name obj # completed)))"
| "run_ops e (Replace src dst # ops) fs =
     (if can_replace e fs src then
        (case run_ops e ops (apply_op (Replace src dst) fs) of
           (r, fs', completed) \<Rightarrow> (r, fs', Replace src dst # completed))
      else (Inl OSError, fs, []))"

definition safe_write_json_ops :: "string \<Rightarrow> json \<Rightarrow> fs_op list" where
  "safe_write_json_ops name obj =
     [WriteText (tmp_of name) obj, Replace (tmp_of name) name]"

definition safe_write_json ::
  "env \<Rightarrow> string \<Rightarrow> json \<Rightarrow> files \<Rightarrow> (py_error + unit) \<times> files \<times> fs_op list" where
  "safe_write_json e name obj fs = run_ops e (safe_write_json_ops name obj) fs"

text \<open>\<open>load_index\<close> returns whatever the index file parses to, and the empty
  dict when the file is absent or reading or parsing it raises.\<close>

definition load_index :: "files \<Rightarrow> json" where
  "load_index fs =
     (case fs INDEX_FILE of
        None \<Rightarrow> JObj []
      | Some Unparsable \<Rightarrow> JObj []
      | Some (Parsed v) \<Rightarrow> v)"

definition save_index ::
  "env \<Rightarrow> (string \<times> json) list \<Rightarrow> files \<Rightarrow> (py_error + unit) \<times> files \<times> fs_op list" where
  "save_index e index fs = safe_write_json e INDEX_FILE (JObj index) fs"

section \<open>ocr_pdf_with_cache\<close>

text \<open>Python truth value of a JSON value (\<open>if entry\<close>).\<close>

fun truthy :: "json \<Rightarrow> bool" where
  "truthy JNull = False"
| "truthy (JBool b) = b"
| "truthy (JInt i) = (i \<noteq> 0)"
| "truthy (JStr s) = (s \<noteq> [])"
| "truthy (JArr xs) = (xs \<noteq> [])"
| "truthy (JObj kvs) = (kvs \<noteq> [])"

text \<open>\<open>entry.get(key) == n\<close> for an integer \<open>n\<close>: a missing key gives \<open>None\<close>, and
  Python's \<open>True\<close> and \<open>False\<close> equal 1 and 0.\<close>

fun py_eq_int :: "json option \<Rightarrow> int \<Rightarrow> bool" where
  "py_eq_int (Some (JInt i)) n = (i = n)"
| "py_eq_int (Some (JBool b)) n = ((if b then 1 else 0) = n)"
| "py_eq_int _ n = False"

text \<open>\<open>int(x)\<close> truncates towards zero.\<close>

definition py_int :: "rat \<Rightarrow> int" where
  "py_int x = (if 0 \<le> x then \<lfloor>x\<rfloor> else \<lceil>x\<rceil>)"

text \<open>What a call does besides returning: hashing the document, rasterising it,
  handing a page to the pool through \<open>ex.map\<close>, and the operations on files of the
  cache directory that were completed.\<close>

datatype event = Hashed path | Rasterized path | Submitted nat | FileOp fs_op

record outcome =
  result :: "py_error + json"
  index_after :: "(string \<times> json) list"
  files_after :: files
  events :: "event list"

text \<open>The look-up of the cached record: \<open>Inr (Some data)\<close> is the cache hit,
  \<open>Inr None\<close> falls through to processing, \<open>Inl\<close> is an exception of the look-up
  itself (an entry that is no dict has no \<open>get\<close>; \<open>entry["cache_file"]\<close> on a missing
  key; a name that is no string).\<close>

definition cached_record ::
  "(string \<times> json) list \<Rightarrow> string \<Rightarrow> int \<Rightarrow> int \<Rightarrow> files \<Rightarrow> py_error + json option" where
  "cached_record index abs_path mtime fsize fs =
     (case map_of index abs_path of
        None \<Rightarrow> Inr None
      | Some entry \<Rightarrow>
          if \<not> truthy entry then Inr None
          else
            (case entry of
               JObj d \<Rightarrow>
                 if py_eq_int (map_of d ''mtime'') mtime \<and> py_eq_int (map_of d ''size'') fsize
                 then
                   (case map_of d ''cache_file'' of
                      None \<Rightarrow> Inl KeyError
                    | Some (JStr name) \<Rightarrow>
                        (case fs name of
                           Some (Parsed data) \<Rightarrow> Inr (Some data)
                         | _ \<Rightarrow> Inr None)
                    | Some _ \<Rightarrow> Inl TypeError)
                 else Inr None
             | _ \<Rightarrow> Inl AttributeError))"

definition record_of ::
  "string \<Rightarrow> string \<Rightarrow> int \<Rightarrow> int \<Rightarrow> string \<Rightarrow> string list \<Rightarrow> json" where
  "record_of abs_path sha mtime fsize cache_filename pages_text =
     JObj [(''path'', JStr abs_path), (''sha256'', JStr sha), (''mtime'', JInt mtime),
           (''size'', JInt fsize), (''cache_file'', JStr cache_filename),
           (''pages'', JArr (map JStr pages_text))]"

definition entry_of :: "int \<Rightarrow> int \<Rightarrow> string \<Rightarrow> string \<Rightarrow> json" where
  "entry_of mtime fsize sha cache_filename =
     JObj [(''mtime'', JInt mtime), (''size'', JInt fsize), (''sha256'', JStr sha),
           (''cache_file'', JStr cache_filename)]"

text \<open>The branch \<open>if pages_text:\<close>: the record is written, then the index is
  updated in memory and saved.\<close>

definition persist ::
  "env \<Rightarrow> string \<Rightarrow> string \<Rightarrow> int \<Rightarrow> int \<Rightarrow> string list \<Rightarrow> (string \<times> json) list \<Rightarrow> files
     \<Rightarrow> event list \<Rightarrow> outcome" where
  "persist e abs_path sha mtime fsize pages_text index fs ev =
     (let cache_filename = sha @ ''.json'';
          data = record_of abs_path sha mtime fsize cache_filename pages_text
      in case safe_write_json e cache_filename data fs of
           (r1, fs1, ops1) \<Rightarrow>
             (case r1 of
                Inl err \<Rightarrow>
                  \<lparr>result = Inl err, index_after = index, files_after = fs1,
                   events = ev @ map FileOp ops1\<rparr>
              | Inr u \<Rightarrow>
                  (let index' = AList.update abs_path
                                  (entry_of mtime fsize sha cache_filename) index
                   in case save_index e index' fs1 of
                        (r2, fs2, ops2) \<Rightarrow>
                          \<lparr>result = (case r2 of Inl err \<Rightarrow> Inl err | Inr u \<Rightarrow> Inr data),
                           index_after = index', files_after = fs2,
                           events = ev @ map FileOp (ops1 @ ops2)\<rparr>)))"

text \<open>Everything after the comment \<open>Need to process\<close>. With no page text the
  variable \<open>data\<close> was never assigned when \<open>return data\<close> is reached.\<close>

definition process_miss ::
  "env \<Rightarrow> path \<Rightarrow> string \<Rightarrow> int \<Rightarrow> int \<Rightarrow> (string \<times> json) list \<Rightarrow> files \<Rightarrow> outcome" where
  "process_miss e pdf_path abs_path mtime fsize index fs =
     (case file_sha256 e pdf_path 65536 of
        Inl err \<Rightarrow>
          \<lparr>result = Inl err, index_after = index, files_after = fs,
           events = [Hashed pdf_path]\<rparr>
      | Inr sha \<Rightarrow>
          (let images = (case convert_from_path e pdf_path of
                           None \<Rightarrow> []
                         | Some imgs \<Rightarrow> imgs);
               tasks = make_tasks e images;
               ev = [Hashed pdf_path, Rasterized pdf_path]
                      @ map (\<lambda>t. Submitted (task_page t)) tasks
           in case (if tasks \<noteq> [] then run_pool e tasks else Inr []) of
                Inl err \<Rightarrow>
                  \<lparr>result = Inl err, index_after = index, files_after = fs, events = ev\<rparr>
              | Inr pairs \<Rightarrow>
                  (let pages_text = collect_pages pairs
                   in if pages_text \<noteq> []
                      then persist e abs_path sha mtime fsize pages_text index fs ev
                      else \<lparr>result = Inl UnboundLocalError, index_after = index,
                            files_after = fs, events = ev\<rparr>)))"

definition ocr_pdf_with_cache ::
  "env \<Rightarrow> path \<Rightarrow> (string \<times> json) list \<Rightarrow> files \<Rightarrow> outcome" where
  "ocr_pdf_with_cache e pdf_path index fs =
     (let abs_path = resolve_str e pdf_path
      in case stat e pdf_path of
           None \<Rightarrow>
             \<lparr>result = Inl OSError, index_after = index, files_after = fs, events = []\<rparr>
         | Some st \<Rightarrow>
             (let mtime = py_int (st_mtime st); fsize = st_size st
              in case cached_record index abs_path mtime fsize fs of
                   Inl err \<Rightarrow>
                     \<lparr>result = Inl err, index_after = index, files_after = fs,
                      events = []\<rparr>
                 | Inr None \<Rightarrow> process_miss e pdf_path abs_path mtime fsize index fs
                 | Inr (Some data) \<Rightarrow>
                     \<lparr>result = Inr data, index_after = index, files_after = fs,
                      events = []\<rparr>))"

section \<open>The loop of main over the documents\<close>

text \<open>\<open>all_data\<close> and the reported errors are accumulated; every exception of
  \<open>ocr_pdf_with_cache\<close> is caught and printed, and the loop goes on
  (\<open>ocr_pdf_with_cache\<close> raises no \<open>SystemExit\<close>, the one error here that
  \<open>except Exception\<close> would let through).\<close>

record run =
  all_data :: "(string \<times> json) list"
  reported :: "(path \<times> py_error) list"
  run_index :: "(string \<times> json) list"
  run_files :: files

fun process_documents ::
  "env \<Rightarrow> path list \<Rightarrow> (string \<times> json) list \<Rightarrow> files \<Rightarrow> (string \<times> json) list
     \<Rightarrow> (path \<times> py_error) list \<Rightarrow> run" where
  "process_documents e [] index fs acc errs =
     \<lparr>all_data = acc, reported = errs, run_index = index, run_files = fs\<rparr>"
| "process_documents e (pdf # rest) index fs acc errs =
     (let r = ocr_pdf_with_cache e pdf index fs
      in case result r of
           Inr data \<Rightarrow>
             process_documents e rest (index_after r) (files_after r)
               (AList.update (resolve_str e pdf) data acc) errs
         | Inl err \<Rightarrow>
             process_documents e rest (index_after r) (files_after r) acc
               (errs @ [(pdf, err)]))"

section \<open>Crashes and what a reader of the cache directory sees\<close>

text \<open>The files a crash can leave behind while a list of operations runs: before
  or after any operation, or inside a write, with the document truncated. A rename
  is atomic.\<close>

fun interrupted :: "fs_op \<Rightarrow> files \<Rightarrow> files list" where
  "interrupted (WriteText name obj) fs = [fs(name \<mapsto> Unparsable)]"
| "interrupted (Replace src dst) fs = []"

fun crash_states :: "fs_op list \<Rightarrow> files \<Rightarrow> files list" where
  "crash_states [] fs = [fs]"
| "crash_states (op # ops) fs =
     fs # interrupted op fs @ crash_states ops (apply_op op fs)"

text \<open>The cache files that the entries of an index name.\<close>

definition entry_ref :: "json \<Rightarrow> string list" where
  "entry_ref entry =
     (case entry of
        JObj d \<Rightarrow> (case map_of d ''cache_file'' of Some (JStr name) \<Rightarrow> [name] | _ \<Rightarrow> [])
      | _ \<Rightarrow> [])"

definition referenced :: "json \<Rightarrow> string list" where
  "referenced idx =
     (case idx of JObj kvs \<Rightarrow> concat (map (\<lambda>kv. entry_ref (snd kv)) kvs) | _ \<Rightarrow> [])"

definition readable :: "files \<Rightarrow> string \<Rightarrow> bool" where
  "readable fs name = (case fs name of Some (Parsed v) \<Rightarrow> True | _ \<Rightarrow> False)"

text \<open>Every record file that an index names exists and parses.\<close>

definition backed_by :: "files \<Rightarrow> json \<Rightarrow> bool" where
  "backed_by fs idx = list_all (readable fs) (referenced idx)"

definition consistent :: "files \<Rightarrow> bool" where
  "consistent fs = backed_by fs (load_index fs)"

text \<open>Names of record files as the program forms them: 64 hexadecimal digits of
  the digest and \<open>.json\<close>.\<close>

definition record_name :: "string \<Rightarrow> bool" where
  "record_name name \<longleftrightarrow> length name = 69 \<and> drop 64 name = ''.json''"

section \<open>Notions used to state the properties\<close>

text \<open>The text recognised for a page image: what the worker returns for the task
  built from it.\<close>

definition recognized_text :: "env \<Rightarrow> image \<Rightarrow> string" where
  "recognized_text e img =
     (case image_to_string e (case tesseract_cmd e of None \<Rightarrow> '''' | Some c \<Rightarrow> c) ''''
             (png_bytes e img) of
        None \<Rightarrow> ''''
      | Some text \<Rightarrow> text)"

text \<open>The executor hands over the result of every task: either \<open>ex.map\<close> yields
  all of them, or it raises before the first one and every future of the fallback
  returns.\<close>

definition pool_delivers :: "env \<Rightarrow> bool" where
  "pool_delivers e \<longleftrightarrow>
     map_breaks e = None
     \<or> (map_breaks e = Some 0 \<and> \<not> pool_broken e \<and> (\<forall>n. \<not> future_raises e n))"

text \<open>The file operations of the branch \<open>if pages_text:\<close> when nothing fails.\<close>

definition persist_ops ::
  "string \<Rightarrow> string \<Rightarrow> int \<Rightarrow> int \<Rightarrow> string list \<Rightarrow> (string \<times> json) list \<Rightarrow> fs_op list" where
  "persist_ops abs_path sha mtime fsize pages_text index =
     safe_write_json_ops (sha @ ''.json'')
       (record_of abs_path sha mtime fsize (sha @ ''.json'') pages_text)
     @ safe_write_json_ops INDEX_FILE
         (JObj (AList.update abs_path (entry_of mtime fsize sha (sha @ ''.json'')) index))"

section \<open>A sample environment\<close>

definition sample_entries :: "dir_entry list" where
  "sample_entries =
     [\<lparr>entry_name = ''b.PDF'', is_file = True, resolved = [''/'', ''docs'', ''b.PDF'']\<rparr>,
      \<lparr>entry_name = ''notes.txt'', is_file = True,
       resolved = [''/'', ''docs'', ''notes.txt'']\<rparr>,
      \<lparr>entry_name = ''a.pdf'', is_file = True, resolved = [''/'', ''docs'', ''a.pdf'']\<rparr>,
      \<lparr>entry_name = ''sub.pdf'', is_file = False,
       resolved = [''/'', ''docs'', ''sub.pdf'']\<rparr>]"

text \<open>\<open>str\<close> of an absolute POSIX path given by its parts.\<close>

fun join_parts :: "string list \<Rightarrow> string" where
  "join_parts [] = []"
| "join_parts [x] = x"
| "join_parts (x # y # ys) = x @ CHR ''/'' # join_parts (y # ys)"

definition posix_str :: "path \<Rightarrow> string" where
  "posix_str p = (case p of [] \<Rightarrow> [CHR ''.''] | anchor # rest \<Rightarrow> anchor @ join_parts rest)"

definition sample_env :: env where
  "sample_env =
     \<lparr>listdir = (\<lambda>d. if d = ''/docs'' then Some sample_entries else None),
      resolve_str = posix_str,
      stat = (\<lambda>p. Some \<lparr>st_mtime = 100, st_size = 3\<rparr>),
      read_file = (\<lambda>p. Some [1, 2, 3]),
      can_allocate = (\<lambda>n. n \<le> 2 ^ 31),
      sha256 = (\<lambda>bs. of_nat (length bs)),
      convert_from_path = (\<lambda>p. Some [[1], [2]]),
      png_bytes = (\<lambda>img. img),
      image_to_string = (\<lambda>tcmd lang png. if png = [1] then Some ''one'' else Some ''two''),
      tesseract_cmd = None,
      map_breaks = None,
      pool_broken = False,
      finish_time = (\<lambda>n. n),
      future_raises = (\<lambda>n. False),
      write_outcome = (\<lambda>name. WriteOk),
      replace_ok = (\<lambda>name. True)\<rparr>"

definition sample_pdf :: path where
  "sample_pdf = [''/'', ''docs'', ''a.pdf'']"

text \<open>Variations: \<open>ex.map\<close> raises at once and the futures of the fallback finish
  in reverse order; the future of page 1 raises in the fallback; five pages of which
  the third cannot be recognised; the rasteriser fails; the cache directory cannot be
  written.\<close>

definition reversed_env :: env where
  "reversed_env = sample_env\<lparr>map_breaks := Some 0, finish_time := (\<lambda>n. 10 - n)\<rparr>"

definition dropped_env :: env where
  "dropped_env = sample_env\<lparr>map_breaks := Some 0, future_raises := (\<lambda>n. n = 1)\<rparr>"

definition five_env :: env where
  "five_env =
     sample_env\<lparr>convert_from_path := (\<lambda>p. Some [[1], [2], [3], [4], [5]]),
                image_to_string := (\<lambda>tcmd lang png. if png = [3] then None else Some ''text'')\<rparr>"

definition blank_env :: env where
  "blank_env = sample_env\<lparr>convert_from_path := (\<lambda>p. None)\<rparr>"

definition readonly_env :: env where
  "readonly_env = sample_env\<lparr>write_outcome := (\<lambda>name. OpenFails)\<rparr>"

text \<open>States of the cache: after the sample document was processed, with an entry
  of an older modification time, and with files that do not parse.\<close>

definition sample_record :: json where
  "sample_record =
     record_of ''/docs/a.pdf'' (hex_of 3) 100 3 (hex_of 3 @ ''.json'') [''one'', ''two'']"

definition cached_index :: "(string \<times> json) list" where
  "cached_index = [(''/docs/a.pdf'', entry_of 100 3 (hex_of 3) (hex_of 3 @ ''.json''))]"

definition cached_files :: files where
  "cached_files =
     [hex_of 3 @ ''.json'' \<mapsto> Parsed sample_record,
      INDEX_FILE \<mapsto> Parsed (JObj cached_index)]"

definition stale_index :: "(string \<times> json) list" where
  "stale_index = [(''/docs/a.pdf'', entry_of 99 3 (hex_of 3) (hex_of 3 @ ''.json''))]"

definition torn_files :: files where
  "torn_files = [hex_of 3 @ ''.json'' \<mapsto> Unparsable, INDEX_FILE \<mapsto> Unparsable]"

text \<open>An environment in which writing the temporary index file fails part-way.\<close>

definition torn_index_env :: env where
  "torn_index_env =
     sample_env\<lparr>write_outcome :=
                  (\<lambda>name. if name = tmp_of INDEX_FILE then WriteFailsPartway else WriteOk)\<rparr>"

section \<open>Properties of file_sha256\<close>

lemma f_read_prefix:
  "f_read e n rest = Inr chunk \<Longrightarrow> chunk @ drop (length chunk) rest = rest"
  by (auto simp: f_read_def min_def split: if_splits sum.splits)

lemma f_read_block:
  assumes "0 < n" and "n \<le> PY_SSIZE_T_MAX - PyBytesObject_SIZE" and "can_allocate e n"
  shows "f_read e n rest = Inr (take (nat n) rest)"
  using assms by (simp add: f_read_def bytes_new_def PY_SSIZE_T_MAX_def PyBytesObject_SIZE_def)

lemma concat_read_chunks:
  assumes "0 < n" and "n \<le> PY_SSIZE_T_MAX - PyBytesObject_SIZE" and "can_allocate e n"
  shows "\<exists>chunks. read_chunks e n rest = Inr chunks \<and> concat chunks = rest"
  using assms
proof (induction e n rest rule: read_chunks.induct)
  case (1 e block_size rest)
  note r = f_read_block [OF "1.prems", of rest]
  show ?case
  proof (cases "take (nat block_size) rest = []")
    case True
    with "1.prems"(1) have "rest = []" by simp
    with r show ?thesis by (subst read_chunks.simps) simp
  next
    case False
    from "1.IH" [OF r False "1.prems"] obtain chunks where
      c: "read_chunks e block_size (drop (length (take (nat block_size) rest)) rest)
            = Inr chunks"
      and d: "concat chunks = drop (length (take (nat block_size) rest)) rest"
      by blast
    from f_read_prefix [OF r] d
    have "concat (take (nat block_size) rest # chunks) = rest" by simp
    with r False c show ?thesis by (subst read_chunks.simps) simp
  qed
qed

lemma foldl_h_update: "foldl h_update h chunks = h @ concat chunks"
  by (induction chunks arbitrary: h) (simp_all add: h_update_def)

lemma length_hex_digits: "length (hex_digits k v) = k"
  by (induction k arbitrary: v) simp_all

lemma length_hex_of [simp]: "length (hex_of d) = 64"
  by (simp add: hex_of_def length_hex_digits)

lemma file_sha256_block:
  assumes "read_file e p = Some content"
    and "0 < n" and "n \<le> PY_SSIZE_T_MAX - PyBytesObject_SIZE" and "can_allocate e n"
  shows "file_sha256 e p n = Inr (hex_of (sha256 e content))"
proof -
  from concat_read_chunks [OF assms(2-4), of content] obtain chunks where
    "read_chunks e n content = Inr chunks" and "concat chunks = content"
    by blast
  with assms(1) show ?thesis
    by (simp add: file_sha256_def h_hexdigest_def foldl_h_update)
qed

text \<open>
  Sizes that are no block sizes: \<open>-1\<close> reads the whole file as one chunk, \<open>0\<close> reads
  nothing, so that the digest is the one of the empty message, and every other size
  makes the first read raise.
\<close>

lemma file_sha256_read_all:
  assumes "read_file e p = Some content"
    and "int (length content) \<le> PY_SSIZE_T_MAX - PyBytesObject_SIZE"
    and "content = [] \<or> can_allocate e (int (length content))"
  shows "file_sha256 e p (- 1) = Inr (hex_of (sha256 e content))"
proof (cases "content = []")
  case True
  have "f_read e (- 1) [] = Inr []"
    by (simp add: f_read_def bytes_new_def PY_SSIZE_T_MAX_def PyBytesObject_SIZE_def)
  then have "read_chunks e (- 1) [] = Inr []"
    by (subst read_chunks.simps) simp
  with assms(1) True show ?thesis
    by (simp add: file_sha256_def h_hexdigest_def)
next
  case False
  with assms(2,3) have a: "f_read e (- 1) content = Inr content"
    by (simp add: f_read_def bytes_new_def PY_SSIZE_T_MAX_def)
  have "f_read e (- 1) [] = Inr []"
    by (simp add: f_read_def bytes_new_def PY_SSIZE_T_MAX_def PyBytesObject_SIZE_def)
  then have b: "read_chunks e (- 1) [] = Inr []"
    by (subst read_chunks.simps) simp
  from a b False have "read_chunks e (- 1) content = Inr [content]"
    by (subst read_chunks.simps) simp
  with assms(1) show ?thesis
    by (simp add: file_sha256_def h_hexdigest_def h_update_def)
qed

lemma file_sha256_block_size_0:
  assumes "read_file e p = Some content"
  shows "file_sha256 e p 0 = Inr (hex_of (sha256 e []))"
proof -
  have "f_read e 0 content = Inr []"
    by (simp add: f_read_def bytes_new_def PY_SSIZE_T_MAX_def PyBytesObject_SIZE_def)
  then have "read_chunks e 0 content = Inr []"
    by (subst read_chunks.simps) simp
  with assms show ?thesis
    by (simp add: file_sha256_def h_hexdigest_def)
qed

lemma file_sha256_raises:
  assumes "read_file e p = Some content"
  shows "n < - 1 \<Longrightarrow> - PY_SSIZE_T_MAX - 1 \<le> n \<Longrightarrow> file_sha256 e p n = Inl ValueError"
    and "n < - PY_SSIZE_T_MAX - 1 \<Longrightarrow> file_sha256 e p n = Inl OverflowError"
    and "PY_SSIZE_T_MAX - PyBytesObject_SIZE < n \<Longrightarrow> file_sha256 e p n = Inl OverflowError"
    and "0 < n \<Longrightarrow> n \<le> PY_SSIZE_T_MAX - PyBytesObject_SIZE \<Longrightarrow> \<not> can_allocate e n \<Longrightarrow>
           file_sha256 e p n = Inl MemoryError"
proof -
  show "n < - 1 \<Longrightarrow> - PY_SSIZE_T_MAX - 1 \<le> n \<Longrightarrow> file_sha256 e p n = Inl ValueError"
    using assms
    by (subst file_sha256_def, subst read_chunks.simps)
       (simp add: f_read_def PY_SSIZE_T_MAX_def)
  show "n < - PY_SSIZE_T_MAX - 1 \<Longrightarrow> file_sha256 e p n = Inl OverflowError"
    using assms
    by (subst file_sha256_def, subst read_chunks.simps) (simp add: f_read_def)
  show "PY_SSIZE_T_MAX - PyBytesObject_SIZE < n \<Longrightarrow> file_sha256 e p n = Inl OverflowError"
    using assms
    by (subst file_sha256_def, subst read_chunks.simps)
       (simp add: f_read_def bytes_new_def PY_SSIZE_T_MAX_def PyBytesObject_SIZE_def)
  show "0 < n \<Longrightarrow> n \<le> PY_SSIZE_T_MAX - PyBytesObject_SIZE \<Longrightarrow> \<not> can_allocate e n \<Longrightarrow>
           file_sha256 e p n = Inl MemoryError"
    using assms
    by (subst file_sha256_def, subst read_chunks.simps)
       (simp add: f_read_def bytes_new_def PY_SSIZE_T_MAX_def PyBytesObject_SIZE_def)
qed

text \<open>
  C8. Streaming the file in blocks of a fixed size gives the SHA-256 digest of the
  whole content, so two files with the same bytes get the same digest whatever block
  sizes are used. A block size is a positive number of bytes that a read accepts: the
  \<open>bytes\<close> object of that size is within the limit of the interpreter and can be
  allocated.
\<close>

theorem file_sha256_whole_content:
  assumes "read_file e p = Some content" and "read_file e q = Some content"
    and "0 < n" and "n \<le> PY_SSIZE_T_MAX - PyBytesObject_SIZE" and "can_allocate e n"
    and "0 < m" and "m \<le> PY_SSIZE_T_MAX - PyBytesObject_SIZE" and "can_allocate e m"
  shows "file_sha256 e p n = Inr (hex_of (sha256 e content))
       \<and> file_sha256 e q m = file_sha256 e p n"
  using file_sha256_block [OF assms(1) assms(3-5)] file_sha256_block [OF assms(2) assms(6-8)]
  by simp

theorem file_sha256_whole_content_witness:
  "read_file sample_env [''a.pdf''] = Some [1, 2, 3]
   \<and> read_file sample_env [''b.pdf''] = Some [1, 2, 3]
   \<and> can_allocate sample_env 2 \<and> can_allocate sample_env 65536
   \<and> file_sha256 sample_env [''a.pdf''] 2 = Inr (hex_of (sha256 sample_env [1, 2, 3]))
   \<and> file_sha256 sample_env [''b.pdf''] 65536 = file_sha256 sample_env [''a.pdf''] 2"
  using file_sha256_whole_content [of sample_env "[''a.pdf'']" "[1, 2, 3]" "[''b.pdf'']" 2 65536]
  by (simp add: sample_env_def PY_SSIZE_T_MAX_def PyBytesObject_SIZE_def)

section \<open>Properties of list_pdf_files\<close>

text \<open>
  C9. For a source directory that exists, the listing is sorted and holds exactly the
  resolved paths of the entries of that directory itself that are files and whose
  suffix, in lower case, is \<open>.pdf\<close>; for anything that is no directory the call ends
  with \<open>SystemExit\<close>.
\<close>

theorem list_pdf_files_spec:
  "(listdir e src_dir = None \<longrightarrow> list_pdf_files e src_dir = Inl SystemExit)
   \<and> (\<forall>entries. listdir e src_dir = Some entries \<longrightarrow>
        (\<exists>ps. list_pdf_files e src_dir = Inr ps \<and> sorted ps
           \<and> mset ps = mset (map resolved
                 (filter (\<lambda>f. is_file f \<and> str_lower (path_suffix (entry_name f)) = ''.pdf'')
                    entries))))"
  by (auto simp: list_pdf_files_def is_pdf_def)

theorem list_pdf_files_spec_witness:
  "listdir sample_env ''/nowhere'' = None
   \<and> list_pdf_files sample_env ''/nowhere'' = Inl SystemExit
   \<and> listdir sample_env ''/docs'' = Some sample_entries
   \<and> (\<exists>ps. list_pdf_files sample_env ''/docs'' = Inr ps \<and> sorted ps
         \<and> mset ps = mset [[''/'', ''docs'', ''b.PDF''], [''/'', ''docs'', ''a.pdf'']])"
proof -
  have a: "listdir sample_env ''/nowhere'' = None"
    by (simp add: sample_env_def)
  have b: "listdir sample_env ''/docs'' = Some sample_entries"
    by (simp add: sample_env_def)
  have c: "map resolved
             (filter (\<lambda>f. is_file f \<and> str_lower (path_suffix (entry_name f)) = ''.pdf'')
                sample_entries)
           = [[''/'', ''docs'', ''b.PDF''], [''/'', ''docs'', ''a.pdf'']]"
    by code_simp
  from list_pdf_files_spec [of sample_env "''/nowhere''"] a
  have d: "list_pdf_files sample_env ''/nowhere'' = Inl SystemExit"
    by simp
  from list_pdf_files_spec [of sample_env "''/docs''"] b
  have "\<exists>ps. list_pdf_files sample_env ''/docs'' = Inr ps \<and> sorted ps
         \<and> mset ps = mset (map resolved
               (filter (\<lambda>f. is_file f \<and> str_lower (path_suffix (entry_name f)) = ''.pdf'')
                  sample_entries))"
    by simp
  with a b d show ?thesis
    by (simp only: c)
qed

section \<open>The pool returns the pages in order\<close>

lemma map_page_make_tasks:
  "map task_page (make_tasks e images) = map fst (enumerate 1 images)"
proof -
  have "task_page \<circ> (\<lambda>(i, img). (png_bytes e img, i,
          (case tesseract_cmd e of None \<Rightarrow> [] | Some c \<Rightarrow> c), [])) = fst"
    by (auto simp: task_page_def fun_eq_iff)
  then show ?thesis by (simp only: make_tasks_def map_map)
qed

lemma length_make_tasks: "length (make_tasks e images) = length images"
  by (simp only: make_tasks_def length_map length_enumerate)

lemma make_tasks_Nil_iff: "make_tasks e images = [] \<longleftrightarrow> images = []"
  using length_make_tasks [of e images] by (metis length_0_conv)

lemma fst_worker: "fst (ocr_bytes_worker e t) = task_page t"
  by (simp add: ocr_bytes_worker_def task_page_def case_prod_unfold)

lemma map_fst_workers:
  "map fst (map (ocr_bytes_worker e) (make_tasks e images)) = [1..<1 + length images]"
proof -
  have "fst \<circ> ocr_bytes_worker e = task_page"
    by (simp add: fun_eq_iff fst_worker)
  then show ?thesis
    by (simp only: map_map map_page_make_tasks map_fst_enumerate)
qed

lemma map_snd_workers:
  "map snd (map (ocr_bytes_worker e) (make_tasks e images)) = map (recognized_text e) images"
proof -
  have "snd \<circ> (ocr_bytes_worker e \<circ> (\<lambda>(i, img). (png_bytes e img, i,
          (case tesseract_cmd e of None \<Rightarrow> [] | Some c \<Rightarrow> c), [])))
        = recognized_text e \<circ> snd"
    by (auto simp: ocr_bytes_worker_def recognized_text_def fun_eq_iff)
  then have "map snd (map (ocr_bytes_worker e) (make_tasks e images))
          = map (recognized_text e) (map snd (enumerate 1 images))"
    by (simp only: make_tasks_def map_map)
  then show ?thesis by (simp only: map_snd_enumerate)
qed

lemma filter_key_distinct:
  "distinct (map f xs) \<Longrightarrow> k \<in> set xs \<Longrightarrow> filter (\<lambda>x. f k = f x) xs = [k]"
proof (induction xs)
  case Nil
  then show ?case by simp
next
  case (Cons a xs)
  from Cons.prems have fresh: "\<forall>x\<in>set xs. f a \<noteq> f x" and d: "distinct (map f xs)"
    by auto
  show ?case
  proof (cases "k = a")
    case True
    from fresh have "filter (\<lambda>x. f a = f x) xs = []" by (simp add: filter_empty_conv)
    with True show ?thesis by simp
  next
    case False
    with Cons.prems have k: "k \<in> set xs" by simp
    with fresh have "f k \<noteq> f a" by metis
    with Cons.IH [OF d k] show ?thesis by simp
  qed
qed

lemma sort_key_perm_of_sorted:
  assumes "sorted (map f xs)" and "distinct (map f xs)" and "mset ys = mset xs"
  shows "sort_key f ys = xs"
proof (rule properties_for_sort_key)
  show "mset xs = mset ys" using assms(3) by simp
  show "sorted (map f xs)" by (rule assms(1))
  fix k assume k: "k \<in> set xs"
  have "mset (map f ys) = mset (map f xs)" using assms(3) by (metis mset_map)
  then have dy: "distinct (map f ys)" using assms(2) by (metis mset_eq_imp_distinct_iff)
  from k assms(3) have ky: "k \<in> set ys" by (metis mset_eq_setD)
  show "filter (\<lambda>x. f k = f x) xs = filter (\<lambda>x. f k = f x) ys"
    by (simp add: filter_key_distinct [OF assms(2) k] filter_key_distinct [OF dy ky])
qed

lemma collect_pages_perm:
  assumes "mset pairs = mset (map (ocr_bytes_worker e) (make_tasks e images))"
  shows "collect_pages pairs = map (recognized_text e) images"
proof -
  let ?xs = "map (ocr_bytes_worker e) (make_tasks e images)"
  have "sort_key fst pairs = ?xs"
    by (rule sort_key_perm_of_sorted) (simp_all only: map_fst_workers assms sorted_upt distinct_upt)
  then show ?thesis by (simp only: collect_pages_def map_snd_workers)
qed

lemma fallback_collect_all:
  "\<forall>n. \<not> future_raises e n \<Longrightarrow>
     mset (fallback_collect e tasks) = mset (map (ocr_bytes_worker e) tasks)"
proof -
  assume "\<forall>n. \<not> future_raises e n"
  then have "fallback_collect e tasks = map (ocr_bytes_worker e) (as_completed e tasks)"
    by (simp add: fallback_collect_def concat_map_singleton)
  then show ?thesis by (simp add: as_completed_def)
qed

lemma run_pool_delivers:
  assumes "pool_delivers e"
  shows "\<exists>pairs. run_pool e tasks = Inr pairs
           \<and> mset pairs = mset (map (ocr_bytes_worker e) tasks)"
proof (cases "map_breaks e")
  case None
  then show ?thesis by (simp add: run_pool_def executor_map_def)
next
  case (Some k)
  with assms have k: "k = 0" and nb: "\<not> pool_broken e" and nf: "\<forall>n. \<not> future_raises e n"
    by (auto simp: pool_delivers_def)
  show ?thesis
  proof (cases "tasks = []")
    case True
    with Some show ?thesis by (simp add: run_pool_def executor_map_def)
  next
    case False
    with Some k nb show ?thesis
      by (simp add: run_pool_def executor_map_def fallback_collect_all [OF nf])
  qed
qed

lemma events_make_tasks:
  "map (\<lambda>t. Submitted (task_page t)) (make_tasks e images)
     = map Submitted [1..<1 + length images]"
proof -
  have "map (\<lambda>t. Submitted (task_page t)) (make_tasks e images)
          = map Submitted (map task_page (make_tasks e images))"
    by (simp only: map_map comp_def)
  then show ?thesis by (simp only: map_page_make_tasks map_fst_enumerate)
qed

lemma process_reaches_persist:
  assumes "file_sha256 e pdf_path 65536 = Inr sha"
    and "convert_from_path e pdf_path = Some images"
    and "images \<noteq> []"
    and "pool_delivers e"
  shows "process_miss e pdf_path abs_path mtime fsize index fs
         = persist e abs_path sha mtime fsize (map (recognized_text e) images) index fs
             ([Hashed pdf_path, Rasterized pdf_path]
                @ map Submitted [1..<1 + length images])"
proof -
  from run_pool_delivers [OF assms(4)] obtain pairs where
    p: "run_pool e (make_tasks e images) = Inr pairs"
    and m: "mset pairs = mset (map (ocr_bytes_worker e) (make_tasks e images))"
    by blast
  have c: "collect_pages pairs = map (recognized_text e) images"
    by (rule collect_pages_perm [OF m])
  from assms(3) have ne: "make_tasks e images \<noteq> []"
    by (simp only: make_tasks_Nil_iff not_False_eq_True)
  from assms(3) have ne2: "map (recognized_text e) images \<noteq> []" by simp
  show ?thesis
    unfolding process_miss_def
    by (simp only: assms(1) assms(2) sum.case option.case Let_def ne if_True p c ne2
        events_make_tasks not_False_eq_True)
qed


section \<open>Evaluating the sample environments\<close>

lemma file_sha256_content:
  "read_file e p = Some c \<Longrightarrow> can_allocate e 65536 \<Longrightarrow>
     file_sha256 e p 65536 = Inr (hex_of (sha256 e c))"
  by (rule file_sha256_block) (simp_all add: PY_SSIZE_T_MAX_def PyBytesObject_SIZE_def)

lemma sample_env_simps:
  "stat sample_env p = Some \<lparr>st_mtime = 100, st_size = 3\<rparr>"
  "read_file sample_env p = Some [1, 2, 3]"
  "can_allocate sample_env 65536"
  "sha256 sample_env [1, 2, 3] = 3"
  "convert_from_path sample_env p = Some [[1], [2]]"
  "map_breaks sample_env = None"
  "write_outcome sample_env name = WriteOk"
  "replace_ok sample_env name"
  "resolve_str sample_env sample_pdf = ''/docs/a.pdf''"
  by (simp_all add: sample_env_def posix_str_def sample_pdf_def)

lemma py_int_100: "py_int 100 = 100"
  by (simp add: py_int_def)

lemma make_tasks_two:
  "make_tasks e [a, b] =
     [(png_bytes e a, 1, (case tesseract_cmd e of None \<Rightarrow> [] | Some c \<Rightarrow> c), []),
      (png_bytes e b, 2, (case tesseract_cmd e of None \<Rightarrow> [] | Some c \<Rightarrow> c), [])]"
  by (simp add: make_tasks_def enumerate_eq_zip upt_rec)

section \<open>Page order\<close>

text \<open>
  C3 (as amended). When the executor hands over the result of every task (either
  \<open>ex.map\<close> yields them all, or it raises before the first and every future of the
  fallback returns), the page texts that go into the record are the recognised texts
  of the page images, one per image and in the order of the images, whatever the
  order in which the workers finish (\<open>finish_time\<close> is arbitrary). Indeed, in
  whatever order the results of the workers are collected, sorting them by page
  number and taking the texts gives the recognised texts in page order.
\<close>

theorem pages_in_page_order:
  assumes "file_sha256 e pdf_path 65536 = Inr sha"
    and "convert_from_path e pdf_path = Some images"
    and "images \<noteq> []"
    and "pool_delivers e"
  shows "process_miss e pdf_path abs_path mtime fsize index fs
           = persist e abs_path sha mtime fsize (map (recognized_text e) images) index fs
               ([Hashed pdf_path, Rasterized pdf_path]
                  @ map Submitted [1..<1 + length images])
       \<and> (\<forall>pairs. mset pairs = mset (map (ocr_bytes_worker e) (make_tasks e images)) \<longrightarrow>
            collect_pages pairs = map (recognized_text e) images)"
proof (intro conjI allI impI)
  show "process_miss e pdf_path abs_path mtime fsize index fs
           = persist e abs_path sha mtime fsize (map (recognized_text e) images) index fs
               ([Hashed pdf_path, Rasterized pdf_path]
                  @ map Submitted [1..<1 + length images])"
    using assms by (rule process_reaches_persist)
next
  fix pairs
  assume "mset pairs = mset (map (ocr_bytes_worker e) (make_tasks e images))"
  then show "collect_pages pairs = map (recognized_text e) images"
    by (rule collect_pages_perm)
qed

theorem pages_in_page_order_witness:
  "file_sha256 reversed_env sample_pdf 65536 = Inr (hex_of 3)
   \<and> convert_from_path reversed_env sample_pdf = Some [[1], [2]]
   \<and> pool_delivers reversed_env
   \<and> as_completed reversed_env (make_tasks reversed_env [[1], [2]])
       = [([2], 2, '''', ''''), ([1], 1, '''', '''')]
   \<and> process_miss reversed_env sample_pdf ''/docs/a.pdf'' 100 3 [] Map.empty
       = persist reversed_env ''/docs/a.pdf'' (hex_of 3) 100 3 [''one'', ''two''] [] Map.empty
           [Hashed sample_pdf, Rasterized sample_pdf, Submitted 1, Submitted 2]
   \<and> mset [(2, ''two''), (1, ''one'')]
       = mset (map (ocr_bytes_worker reversed_env) (make_tasks reversed_env [[1], [2]]))
   \<and> collect_pages [(2, ''two''), (1, ''one'')] = [''one'', ''two'']"
proof -
  have a: "file_sha256 reversed_env sample_pdf 65536 = Inr (hex_of 3)"
    using file_sha256_content [of reversed_env sample_pdf "[1, 2, 3]"]
    by (simp add: reversed_env_def sample_env_simps)
  have b: "convert_from_path reversed_env sample_pdf = Some [[1], [2]]"
    by (simp add: reversed_env_def sample_env_simps)
  have c: "pool_delivers reversed_env"
    by (simp add: pool_delivers_def reversed_env_def sample_env_def)
  have d: "as_completed reversed_env (make_tasks reversed_env [[1], [2]])
       = [([2], 2, '''', ''''), ([1], 1, '''', '''')]"
    by (simp add: as_completed_def make_tasks_two task_page_def
        reversed_env_def sample_env_def)
  have t: "map (recognized_text reversed_env) [[1], [2]] = [''one'', ''two'']"
    by (simp add: recognized_text_def reversed_env_def sample_env_def)
  have u: "map Submitted [1..<1 + length [[1::byte], [2]]] = [Submitted 1, Submitted 2]"
    by (simp add: upt_rec)
  have n: "[[1::byte], [2]] \<noteq> []" by simp
  have m: "mset [(2, ''two''), (1, ''one'')]
       = mset (map (ocr_bytes_worker reversed_env) (make_tasks reversed_env [[1], [2]]))"
    by (simp add: make_tasks_two ocr_bytes_worker_def reversed_env_def sample_env_def)
  note inst = pages_in_page_order [OF a b n c, of "''/docs/a.pdf''" 100 3 "[]" Map.empty]
  from inst
  have p: "process_miss reversed_env sample_pdf ''/docs/a.pdf'' 100 3 [] Map.empty
       = persist reversed_env ''/docs/a.pdf'' (hex_of 3) 100 3 [''one'', ''two''] [] Map.empty
           [Hashed sample_pdf, Rasterized sample_pdf, Submitted 1, Submitted 2]"
    by (simp only: t u) simp
  from inst m have q: "collect_pages [(2, ''two''), (1, ''one'')] = [''one'', ''two'']"
    by (simp only: t)
  from a b c d p m q show ?thesis by (simp only: simp_thms)
qed

lemma dropped_pool:
  "run_pool dropped_env (make_tasks dropped_env [[1], [2]]) = Inr [(2, ''two'')]"
  by (simp add: run_pool_def executor_map_def fallback_collect_def as_completed_def
      make_tasks_two task_page_def ocr_bytes_worker_def dropped_env_def sample_env_def)

text \<open>
  C3 as stated fails: when \<open>ex.map\<close> raises and, in the fallback, the future of
  page 1 raises, that page is reported and left out; the record of a two-page
  document then has the single page text of page 2.
\<close>

theorem pages_dropped_counterexample:
  "convert_from_path dropped_env sample_pdf = Some [[1], [2]]
   \<and> map (recognized_text dropped_env) [[1], [2]] = [''one'', ''two'']
   \<and> result (ocr_pdf_with_cache dropped_env sample_pdf [] Map.empty)
       = Inr (record_of ''/docs/a.pdf'' (hex_of 3) 100 3 (hex_of 3 @ ''.json'') [''two''])"
proof -
  have a: "file_sha256 dropped_env sample_pdf 65536 = Inr (hex_of 3)"
    using file_sha256_content [of dropped_env sample_pdf "[1, 2, 3]"]
    by (simp add: dropped_env_def sample_env_simps)
  have b: "convert_from_path dropped_env sample_pdf = Some [[1], [2]]"
    by (simp add: dropped_env_def sample_env_simps)
  have t: "map (recognized_text dropped_env) [[1], [2]] = [''one'', ''two'']"
    by (simp add: recognized_text_def dropped_env_def sample_env_def)
  have w: "write_outcome dropped_env name = WriteOk" "replace_ok dropped_env name" for name
    by (simp_all add: dropped_env_def sample_env_simps)
  have ne: "make_tasks dropped_env [[1], [2]] \<noteq> []"
    by (simp add: make_tasks_Nil_iff)
  have p: "result (process_miss dropped_env sample_pdf ''/docs/a.pdf'' 100 3 [] Map.empty)
       = Inr (record_of ''/docs/a.pdf'' (hex_of 3) 100 3 (hex_of 3 @ ''.json'') [''two''])"
    by (simp add: process_miss_def a b ne dropped_pool collect_pages_def persist_def
        safe_write_json_def safe_write_json_ops_def save_index_def can_replace_def
        Let_def w)
  have "result (ocr_pdf_with_cache dropped_env sample_pdf [] Map.empty)
       = result (process_miss dropped_env sample_pdf ''/docs/a.pdf'' 100 3 [] Map.empty)"
    by (simp add: ocr_pdf_with_cache_def cached_record_def py_int_100
        dropped_env_def sample_env_simps)
  with b t p show ?thesis by simp
qed

section \<open>Failing pages\<close>

text \<open>
  C4. A worker whose recognition raises returns its page number with the empty
  text; so, when the executor hands over every result, the page list has one text
  per image, empty exactly where recognition failed and the recognised text
  elsewhere. The witness is a document of five pages whose third page fails.
\<close>

theorem failed_page_gives_empty_text:
  "(image_to_string e tcmd lang image_bytes = None \<longrightarrow>
      ocr_bytes_worker e (image_bytes, page_no, tcmd, lang) = (page_no, ''''))
   \<and> (pool_delivers e \<longrightarrow>
        (\<exists>pairs. run_pool e (make_tasks e images) = Inr pairs
           \<and> length (collect_pages pairs) = length images
           \<and> (\<forall>i<length images. collect_pages pairs ! i =
                 (case image_to_string e (case tesseract_cmd e of None \<Rightarrow> '''' | Some c \<Rightarrow> c)
                         '''' (png_bytes e (images ! i)) of
                    None \<Rightarrow> ''''
                  | Some text \<Rightarrow> text))))"
proof (intro conjI impI)
  assume "image_to_string e tcmd lang image_bytes = None"
  then show "ocr_bytes_worker e (image_bytes, page_no, tcmd, lang) = (page_no, '''')"
    by (simp add: ocr_bytes_worker_def)
next
  assume "pool_delivers e"
  from run_pool_delivers [OF this] obtain pairs where
    p: "run_pool e (make_tasks e images) = Inr pairs"
    and m: "mset pairs = mset (map (ocr_bytes_worker e) (make_tasks e images))"
    by blast
  have c: "collect_pages pairs = map (recognized_text e) images"
    by (rule collect_pages_perm [OF m])
  show "\<exists>pairs. run_pool e (make_tasks e images) = Inr pairs
           \<and> length (collect_pages pairs) = length images
           \<and> (\<forall>i<length images. collect_pages pairs ! i =
                 (case image_to_string e (case tesseract_cmd e of None \<Rightarrow> '''' | Some c \<Rightarrow> c)
                         '''' (png_bytes e (images ! i)) of
                    None \<Rightarrow> ''''
                  | Some text \<Rightarrow> text))"
    using p by (simp add: c recognized_text_def)
qed

theorem failed_page_gives_empty_text_witness:
  "image_to_string five_env '''' '''' [3] = None
   \<and> ocr_bytes_worker five_env ([3], 3, '''', '''') = (3, '''')
   \<and> pool_delivers five_env
   \<and> (\<exists>pairs. run_pool five_env (make_tasks five_env [[1], [2], [3], [4], [5]]) = Inr pairs
         \<and> length (collect_pages pairs) = 5
         \<and> collect_pages pairs ! 0 = ''text''
         \<and> collect_pages pairs ! 1 = ''text''
         \<and> collect_pages pairs ! 2 = ''''
         \<and> collect_pages pairs ! 3 = ''text''
         \<and> collect_pages pairs ! 4 = ''text'')"
proof -
  have a: "image_to_string five_env '''' '''' [3] = None"
    by (simp add: five_env_def sample_env_def)
  have b: "pool_delivers five_env"
    by (simp add: pool_delivers_def five_env_def sample_env_def)
  note t = failed_page_gives_empty_text
    [of five_env "''''" "''''" "[3]" 3 "[[1], [2], [3], [4], [5]]"]
  from t a have w: "ocr_bytes_worker five_env ([3], 3, '''', '''') = (3, '''')"
    by blast
  from t b obtain pairs where
    p: "run_pool five_env (make_tasks five_env [[1], [2], [3], [4], [5]]) = Inr pairs"
    and l: "length (collect_pages pairs) = length [[1::byte], [2], [3], [4], [5]]"
    and n: "\<forall>i<length [[1::byte], [2], [3], [4], [5]]. collect_pages pairs ! i =
                 (case image_to_string five_env
                         (case tesseract_cmd five_env of None \<Rightarrow> '''' | Some c \<Rightarrow> c)
                         '''' (png_bytes five_env ([[1], [2], [3], [4], [5]] ! i)) of
                    None \<Rightarrow> ''''
                  | Some text \<Rightarrow> text)"
    by blast
  from n have "collect_pages pairs ! 0 = ''text''" "collect_pages pairs ! 1 = ''text''"
    "collect_pages pairs ! 2 = ''''" "collect_pages pairs ! 3 = ''text''"
    "collect_pages pairs ! 4 = ''text''"
    by (simp_all add: five_env_def sample_env_def)
  with a w b p l show ?thesis by auto
qed

section \<open>Documents without pages\<close>

lemma process_zero_pages:
  assumes "convert_from_path e p = None \<or> convert_from_path e p = Some []"
  shows "process_miss e p abs_path mtime fsize index fs =
     (case file_sha256 e p 65536 of
        Inl err \<Rightarrow> \<lparr>result = Inl err, index_after = index, files_after = fs,
                    events = [Hashed p]\<rparr>
      | Inr sha \<Rightarrow> \<lparr>result = Inl UnboundLocalError, index_after = index, files_after = fs,
                    events = [Hashed p, Rasterized p]\<rparr>)"
proof -
  have "make_tasks e (case convert_from_path e p of None \<Rightarrow> [] | Some imgs \<Rightarrow> imgs) = []"
    using assms by (auto simp: make_tasks_Nil_iff)
  then show ?thesis
    by (simp add: process_miss_def Let_def collect_pages_def split: sum.splits)
qed

lemma ocr_unfold:
  "ocr_pdf_with_cache e p index fs =
     (case stat e p of
        None \<Rightarrow> \<lparr>result = Inl OSError, index_after = index, files_after = fs, events = []\<rparr>
      | Some st \<Rightarrow>
          (case cached_record index (resolve_str e p) (py_int (st_mtime st)) (st_size st) fs of
             Inl err \<Rightarrow> \<lparr>result = Inl err, index_after = index, files_after = fs,
                         events = []\<rparr>
           | Inr None \<Rightarrow>
               process_miss e p (resolve_str e p) (py_int (st_mtime st)) (st_size st) index fs
           | Inr (Some data) \<Rightarrow>
               \<lparr>result = Inr data, index_after = index, files_after = fs, events = []\<rparr>))"
  by (cases "stat e p") (simp_all add: ocr_pdf_with_cache_def Let_def)

text \<open>
  C1 (as amended). For a document whose rasterisation yields no page (also when the
  rasteriser raises), \<open>ocr_pdf_with_cache\<close> writes no file, leaves the index as it
  was, and a later call on the same state behaves as the first one did.
\<close>

theorem zero_pages_nothing_cached:
  assumes "convert_from_path e pdf_path = None \<or> convert_from_path e pdf_path = Some []"
  shows "files_after (ocr_pdf_with_cache e pdf_path index fs) = fs
       \<and> index_after (ocr_pdf_with_cache e pdf_path index fs) = index
       \<and> (\<forall>op. FileOp op \<notin> set (events (ocr_pdf_with_cache e pdf_path index fs)))
       \<and> ocr_pdf_with_cache e pdf_path
            (index_after (ocr_pdf_with_cache e pdf_path index fs))
            (files_after (ocr_pdf_with_cache e pdf_path index fs))
          = ocr_pdf_with_cache e pdf_path index fs"
proof -
  have "files_after (ocr_pdf_with_cache e pdf_path index fs) = fs
       \<and> index_after (ocr_pdf_with_cache e pdf_path index fs) = index
       \<and> (\<forall>op. FileOp op \<notin> set (events (ocr_pdf_with_cache e pdf_path index fs)))"
    by (simp add: ocr_unfold process_zero_pages [OF assms]
        split: option.splits sum.splits)
  then show ?thesis by simp
qed

theorem zero_pages_nothing_cached_witness:
  "convert_from_path blank_env sample_pdf = None
   \<and> files_after (ocr_pdf_with_cache blank_env sample_pdf [] Map.empty) = Map.empty
   \<and> index_after (ocr_pdf_with_cache blank_env sample_pdf [] Map.empty) = []"
proof -
  have a: "convert_from_path blank_env sample_pdf = None"
    by (simp add: blank_env_def sample_env_def)
  from zero_pages_nothing_cached [of blank_env sample_pdf "[]" Map.empty] a
  show ?thesis by simp
qed

text \<open>
  C1 as stated fails: with a failing rasteriser no record is returned (the call ends
  with \<open>UnboundLocalError\<close>), no record file is written and the index gets no
  entry.
\<close>

theorem zero_pages_counterexample:
  "convert_from_path blank_env sample_pdf = None
   \<and> result (ocr_pdf_with_cache blank_env sample_pdf [] Map.empty) = Inl UnboundLocalError
   \<and> files_after (ocr_pdf_with_cache blank_env sample_pdf [] Map.empty)
        (hex_of 3 @ ''.json'') = None
   \<and> map_of (index_after (ocr_pdf_with_cache blank_env sample_pdf [] Map.empty))
        ''/docs/a.pdf'' = None"
proof -
  have a: "convert_from_path blank_env sample_pdf = None"
    by (simp add: blank_env_def sample_env_def)
  have s: "file_sha256 blank_env sample_pdf 65536 = Inr (hex_of 3)"
    using file_sha256_content [of blank_env sample_pdf "[1, 2, 3]"]
    by (simp add: blank_env_def sample_env_simps)
  have b: "stat blank_env sample_pdf = Some \<lparr>st_mtime = 100, st_size = 3\<rparr>"
    "resolve_str blank_env sample_pdf = ''/docs/a.pdf''"
    by (simp_all add: blank_env_def sample_env_simps)
  have "ocr_pdf_with_cache blank_env sample_pdf [] Map.empty
      = \<lparr>result = Inl UnboundLocalError, index_after = [], files_after = Map.empty,
         events = [Hashed sample_pdf, Rasterized sample_pdf]\<rparr>"
    by (simp add: ocr_unfold cached_record_def process_zero_pages a s b)
  with a show ?thesis by simp
qed


section \<open>File names\<close>

lemma neq_by_length: "length a \<noteq> length b \<Longrightarrow> a \<noteq> b"
  by auto

lemma length_file_sha256: "file_sha256 e p n = Inr sha \<Longrightarrow> length sha = 64"
  by (auto simp: file_sha256_def h_hexdigest_def split: option.splits sum.splits)

lemma record_file_names:
  assumes "length sha = 64"
  shows "sha @ ''.json'' \<noteq> INDEX_FILE"
    and "sha @ ''.json'' \<noteq> tmp_of INDEX_FILE"
    and "sha @ ''.json'' \<noteq> tmp_of (sha @ ''.json'')"
    and "tmp_of (sha @ ''.json'') \<noteq> INDEX_FILE"
    and "tmp_of (sha @ ''.json'') \<noteq> tmp_of INDEX_FILE"
  using assms by (simp_all add: neq_by_length INDEX_FILE_def tmp_of_def)

lemma index_file_names: "tmp_of INDEX_FILE \<noteq> INDEX_FILE"
  by (simp add: INDEX_FILE_def tmp_of_def)

section \<open>The steps of ocr_pdf_with_cache\<close>

lemma safe_write_json_result:
  "safe_write_json e name obj fs =
     (case write_outcome e (tmp_of name) of
        OpenFails \<Rightarrow> (Inl OSError, fs, [])
      | WriteFailsPartway \<Rightarrow> (Inl OSError, fs(tmp_of name \<mapsto> Unparsable), [])
      | WriteOk \<Rightarrow>
          if replace_ok e (tmp_of name)
          then (Inr (), (fs(tmp_of name \<mapsto> Parsed obj, name \<mapsto> Parsed obj))(tmp_of name := None),
                safe_write_json_ops name obj)
          else (Inl OSError, fs(tmp_of name \<mapsto> Parsed obj), [WriteText (tmp_of name) obj]))"
  by (simp add: safe_write_json_def safe_write_json_ops_def can_replace_def
      split: write_outcome.splits)

lemma persist_events:
  "\<exists>rest. events (persist e abs_path sha mtime fsize pages_text index fs ev) = ev @ rest"
  by (simp add: persist_def Let_def split: prod.splits sum.splits)

lemma persist_index_frame:
  "k \<noteq> abs_path \<Longrightarrow>
     map_of (index_after (persist e abs_path sha mtime fsize pages_text index fs ev)) k
       = map_of index k"
  by (simp add: persist_def Let_def update_conv' split: prod.splits sum.splits)

lemma persist_returns:
  assumes "result (persist e abs_path sha mtime fsize pages_text index fs ev) = Inr data"
  shows "persist e abs_path sha mtime fsize pages_text index fs ev =
     \<lparr>result = Inr (record_of abs_path sha mtime fsize (sha @ ''.json'') pages_text),
      index_after = AList.update abs_path (entry_of mtime fsize sha (sha @ ''.json'')) index,
      files_after =
        (((fs(tmp_of (sha @ ''.json'') \<mapsto>
               Parsed (record_of abs_path sha mtime fsize (sha @ ''.json'') pages_text),
             sha @ ''.json'' \<mapsto>
               Parsed (record_of abs_path sha mtime fsize (sha @ ''.json'') pages_text)))
           (tmp_of (sha @ ''.json'') := None))
          (tmp_of INDEX_FILE \<mapsto>
             Parsed (JObj (AList.update abs_path
                             (entry_of mtime fsize sha (sha @ ''.json'')) index)),
           INDEX_FILE \<mapsto>
             Parsed (JObj (AList.update abs_path
                             (entry_of mtime fsize sha (sha @ ''.json'')) index))))
          (tmp_of INDEX_FILE := None),
      events = ev @ map FileOp (persist_ops abs_path sha mtime fsize pages_text index)\<rparr>"
  using assms
  by (simp add: persist_def persist_ops_def save_index_def safe_write_json_result Let_def
      split: write_outcome.splits if_splits)

lemma process_hashed: "Hashed p \<in> set (events (process_miss e p abs_path mtime fsize index fs))"
proof (cases "file_sha256 e p 65536")
  case (Inl err)
  then show ?thesis by (simp add: process_miss_def)
next
  case (Inr sha)
  have "Hashed p \<in> set (events (persist e abs_path sha mtime fsize pages_text index fs
          ([Hashed p, Rasterized p] @ rest)))" for pages_text rest
    using persist_events [of e abs_path sha mtime fsize pages_text index fs
        "[Hashed p, Rasterized p] @ rest"]
    by auto
  with Inr show ?thesis
    by (simp add: process_miss_def Let_def split: sum.splits)
qed

lemma process_index_frame:
  "k \<noteq> abs_path \<Longrightarrow>
     map_of (index_after (process_miss e p abs_path mtime fsize index fs)) k = map_of index k"
  by (simp add: process_miss_def Let_def persist_index_frame split: sum.splits)

lemma process_returns:
  assumes "result (process_miss e p abs_path mtime fsize index fs) = Inr data"
  shows "\<exists>sha pages_text ev. file_sha256 e p 65536 = Inr sha
           \<and> process_miss e p abs_path mtime fsize index fs
               = persist e abs_path sha mtime fsize pages_text index fs ev"
  using assms by (auto simp: process_miss_def Let_def split: sum.splits if_splits)

lemma cached_record_hit_iff:
  "cached_record index abs_path mtime fsize fs = Inr (Some data) \<longleftrightarrow>
     (\<exists>d name. map_of index abs_path = Some (JObj d)
        \<and> py_eq_int (map_of d ''mtime'') mtime \<and> py_eq_int (map_of d ''size'') fsize
        \<and> map_of d ''cache_file'' = Some (JStr name)
        \<and> fs name = Some (Parsed data))"
  by (auto simp: cached_record_def split: option.splits json.splits content.splits)

lemma cached_record_fresh:
  assumes "length sha = 64"
  shows "cached_record
           (AList.update abs_path (entry_of mtime fsize sha (sha @ ''.json'')) index)
           abs_path mtime fsize
           ((((fs(tmp_of (sha @ ''.json'') \<mapsto> Parsed data, sha @ ''.json'' \<mapsto> Parsed data))
               (tmp_of (sha @ ''.json'') := None))
              (tmp_of INDEX_FILE \<mapsto> Parsed idx, INDEX_FILE \<mapsto> Parsed idx))
              (tmp_of INDEX_FILE := None))
         = Inr (Some data)"
  using record_file_names [OF assms]
  by (simp add: cached_record_def update_conv' entry_of_def)

section \<open>The index is changed at one key\<close>

text \<open>
  C10. \<open>ocr_pdf_with_cache\<close> changes the caller's index at most at the key of the
  document's absolute path: every other key keeps its entry; when nothing was hashed
  (a cache hit, or an error before processing) the index is the same dict; and when
  processing returned a record, the index is the old one with the entry of this
  document assigned at that key.
\<close>

theorem index_touched_at_one_key:
  "(\<forall>k. k \<noteq> resolve_str e pdf_path \<longrightarrow>
        map_of (index_after (ocr_pdf_with_cache e pdf_path index fs)) k = map_of index k)
   \<and> (Hashed pdf_path \<notin> set (events (ocr_pdf_with_cache e pdf_path index fs)) \<longrightarrow>
        index_after (ocr_pdf_with_cache e pdf_path index fs) = index)
   \<and> (\<forall>data. result (ocr_pdf_with_cache e pdf_path index fs) = Inr data
          \<and> Hashed pdf_path \<in> set (events (ocr_pdf_with_cache e pdf_path index fs)) \<longrightarrow>
        (\<exists>st sha. stat e pdf_path = Some st \<and> file_sha256 e pdf_path 65536 = Inr sha
           \<and> index_after (ocr_pdf_with_cache e pdf_path index fs)
               = AList.update (resolve_str e pdf_path)
                   (entry_of (py_int (st_mtime st)) (st_size st) sha (sha @ ''.json''))
                   index))"
proof (intro conjI allI impI)
  fix k assume "k \<noteq> resolve_str e pdf_path"
  then show "map_of (index_after (ocr_pdf_with_cache e pdf_path index fs)) k = map_of index k"
    by (simp add: ocr_unfold process_index_frame split: option.splits sum.splits)
next
  assume "Hashed pdf_path \<notin> set (events (ocr_pdf_with_cache e pdf_path index fs))"
  then show "index_after (ocr_pdf_with_cache e pdf_path index fs) = index"
    by (auto simp: ocr_unfold process_hashed split: option.splits sum.splits)
next
  fix data
  assume a: "result (ocr_pdf_with_cache e pdf_path index fs) = Inr data
          \<and> Hashed pdf_path \<in> set (events (ocr_pdf_with_cache e pdf_path index fs))"
  then obtain st where st: "stat e pdf_path = Some st"
    by (cases "stat e pdf_path") (auto simp: ocr_unfold)
  let ?m = "py_int (st_mtime st)" and ?s = "st_size st" and ?a = "resolve_str e pdf_path"
  from a st have o: "ocr_pdf_with_cache e pdf_path index fs = process_miss e pdf_path ?a ?m ?s index fs"
    by (auto simp: ocr_unfold split: sum.splits option.splits)
  with a have r: "result (process_miss e pdf_path ?a ?m ?s index fs) = Inr data" by simp
  from process_returns [OF r] obtain sha pages_text ev where
    sha: "file_sha256 e pdf_path 65536 = Inr sha"
    and p: "process_miss e pdf_path ?a ?m ?s index fs = persist e ?a sha ?m ?s pages_text index fs ev"
    by blast
  from r p have "result (persist e ?a sha ?m ?s pages_text index fs ev) = Inr data" by simp
  from persist_returns [OF this] o p
  have "index_after (ocr_pdf_with_cache e pdf_path index fs)
          = AList.update ?a (entry_of ?m ?s sha (sha @ ''.json'')) index"
    by simp
  with st sha
  show "\<exists>st sha. stat e pdf_path = Some st \<and> file_sha256 e pdf_path 65536 = Inr sha
           \<and> index_after (ocr_pdf_with_cache e pdf_path index fs)
               = AList.update (resolve_str e pdf_path)
                   (entry_of (py_int (st_mtime st)) (st_size st) sha (sha @ ''.json''))
                   index"
    by blast
qed

section \<open>Missing and corrupt cache files\<close>

text \<open>
  C6. An index file that is absent or does not parse is read as the empty mapping;
  and when the entry of a document names a record file that is missing or does not
  parse, the look-up raises nothing and \<open>ocr_pdf_with_cache\<close> does exactly what
  processing the document anew does.
\<close>

theorem corrupt_cache_not_fatal:
  "((fs INDEX_FILE = None \<or> fs INDEX_FILE = Some Unparsable) \<longrightarrow> load_index fs = JObj [])
   \<and> (stat e pdf_path = Some st
        \<and> map_of index (resolve_str e pdf_path) = Some (JObj d)
        \<and> map_of d ''cache_file'' = Some (JStr name)
        \<and> (fs name = None \<or> fs name = Some Unparsable) \<longrightarrow>
      ocr_pdf_with_cache e pdf_path index fs
        = process_miss e pdf_path (resolve_str e pdf_path) (py_int (st_mtime st)) (st_size st)
            index fs)"
  by (auto simp: load_index_def ocr_unfold cached_record_def)

section \<open>Cache hits\<close>

text \<open>The look-up reads the index at the absolute path only, and of the files only
  the one that the entry found there names.\<close>

lemma cached_record_cong:
  assumes "map_of index' abs_path = map_of index abs_path"
    and "\<forall>d name. map_of index abs_path = Some (JObj d)
            \<and> map_of d ''cache_file'' = Some (JStr name) \<longrightarrow> fs' name = fs name"
  shows "cached_record index' abs_path mtime fsize fs'
           = cached_record index abs_path mtime fsize fs"
  using assms
  by (auto simp: cached_record_def split: option.splits json.splits content.splits)

lemma ocr_stat_fails:
  "stat e pdf_path = None \<Longrightarrow>
     ocr_pdf_with_cache e pdf_path index fs
       = \<lparr>result = Inl OSError, index_after = index, files_after = fs, events = []\<rparr>"
  by (simp add: ocr_pdf_with_cache_def)

lemma cache_hit_cases:
  assumes "stat e pdf_path = Some st"
    and "r = ocr_pdf_with_cache e pdf_path index fs"
    and "abs_path = resolve_str e pdf_path"
    and "mtime = py_int (st_mtime st)"
    and "fsize = st_size st"
  shows "(\<exists>data. result r = Inr data \<and> Hashed pdf_path \<notin> set (events r)) \<longleftrightarrow>
          (\<exists>data. cached_record index abs_path mtime fsize fs = Inr (Some data))"
    and "cached_record index abs_path mtime fsize fs = Inr (Some data) \<Longrightarrow>
           r = \<lparr>result = Inr data, index_after = index, files_after = fs, events = []\<rparr>"
    and "cached_record index abs_path mtime fsize fs = Inr None \<Longrightarrow>
           r = process_miss e pdf_path abs_path mtime fsize index fs"
    and "result r = Inr data \<Longrightarrow>
           cached_record (index_after r) abs_path mtime fsize (files_after r)
             = Inr (Some data)"
proof -
  note u = ocr_unfold [of e pdf_path, unfolded assms(1) option.case
      assms(3) [symmetric] assms(4) [symmetric] assms(5) [symmetric]]
  show "(\<exists>data. result r = Inr data \<and> Hashed pdf_path \<notin> set (events r)) \<longleftrightarrow>
          (\<exists>data. cached_record index abs_path mtime fsize fs = Inr (Some data))"
    by (auto simp: assms(2) u process_hashed split: sum.splits option.splits)
  show "cached_record index abs_path mtime fsize fs = Inr (Some data) \<Longrightarrow>
           r = \<lparr>result = Inr data, index_after = index, files_after = fs, events = []\<rparr>"
    by (simp add: assms(2) u)
  show "cached_record index abs_path mtime fsize fs = Inr None \<Longrightarrow>
           r = process_miss e pdf_path abs_path mtime fsize index fs"
    by (simp add: assms(2) u)
  show "cached_record (index_after r) abs_path mtime fsize (files_after r)
          = Inr (Some data)" if res: "result r = Inr data"
  proof (cases "cached_record index abs_path mtime fsize fs")
    case (Inl err)
    with res show ?thesis by (simp add: assms(2) u)
  next
    case (Inr hit)
    show ?thesis
    proof (cases hit)
      case (Some cached)
      with Inr have "r = \<lparr>result = Inr cached, index_after = index, files_after = fs,
          events = []\<rparr>"
        by (simp add: assms(2) u)
      with res Inr Some show ?thesis by simp
    next
      case None
      with Inr have rp: "r = process_miss e pdf_path abs_path mtime fsize index fs"
        by (simp add: assms(2) u)
      with res have "result (process_miss e pdf_path abs_path mtime fsize index fs) = Inr data"
        by simp
      from process_returns [OF this] obtain sha pages_text ev where
        sha: "file_sha256 e pdf_path 65536 = Inr sha"
        and p: "process_miss e pdf_path abs_path mtime fsize index fs
                  = persist e abs_path sha mtime fsize pages_text index fs ev"
        by blast
      from res rp p have "result (persist e abs_path sha mtime fsize pages_text index fs ev)
          = Inr data" by simp
      note pr = persist_returns [OF this]
      from pr res rp p have d: "data = record_of abs_path sha mtime fsize (sha @ ''.json'')
          pages_text" by simp
      have l: "length sha = 64" by (rule length_file_sha256 [OF sha])
      show ?thesis
        unfolding rp p pr d outcome.simps by (rule cached_record_fresh [OF l])
    qed
  qed
qed

text \<open>
  C2. Whatever the document path, \<open>ocr_pdf_with_cache\<close> returns a record without
  hashing the file exactly when the index has, at the absolute path, an entry whose
  \<open>mtime\<close> and \<open>size\<close> equal the current metadata of the file (the modification
  time is the integer \<open>int(st.st_mtime)\<close>, in seconds) and whose \<open>cache_file\<close>
  exists and parses; the call then returns the parsed record and does nothing else:
  no hashing, no rasterising, no recognition, no write. An entry with another
  modification time leads to processing, which hashes the file again. And whenever a
  call returns a record, a later call on the same document returns the same record,
  again with nothing else done, provided the index entry of the path and the
  record file it names are as the first call left them; the rest of the index and of
  the cache directory may have changed in between.
\<close>

theorem cache_hit_iff_entry_matches:
  assumes "r = ocr_pdf_with_cache e pdf_path index fs"
    and "abs_path = resolve_str e pdf_path"
  shows "((\<exists>data. result r = Inr data \<and> Hashed pdf_path \<notin> set (events r)) \<longleftrightarrow>
          (\<exists>st d name data. stat e pdf_path = Some st
             \<and> map_of index abs_path = Some (JObj d)
             \<and> py_eq_int (map_of d ''mtime'') (py_int (st_mtime st))
             \<and> py_eq_int (map_of d ''size'') (st_size st)
             \<and> map_of d ''cache_file'' = Some (JStr name)
             \<and> fs name = Some (Parsed data)))
       \<and> (\<forall>st d name data. stat e pdf_path = Some st
             \<and> map_of index abs_path = Some (JObj d)
             \<and> py_eq_int (map_of d ''mtime'') (py_int (st_mtime st))
             \<and> py_eq_int (map_of d ''size'') (st_size st)
             \<and> map_of d ''cache_file'' = Some (JStr name)
             \<and> fs name = Some (Parsed data) \<longrightarrow>
           r = \<lparr>result = Inr data, index_after = index, files_after = fs, events = []\<rparr>)
       \<and> (\<forall>st d m. stat e pdf_path = Some st
             \<and> map_of index abs_path = Some (JObj d)
             \<and> map_of d ''mtime'' = Some (JInt m) \<and> m \<noteq> py_int (st_mtime st) \<longrightarrow>
           r = process_miss e pdf_path abs_path (py_int (st_mtime st)) (st_size st) index fs
             \<and> Hashed pdf_path \<in> set (events r))
       \<and> (\<forall>data index' fs'. result r = Inr data
             \<and> map_of index' abs_path = map_of (index_after r) abs_path
             \<and> (\<forall>d name. map_of (index_after r) abs_path = Some (JObj d)
                    \<and> map_of d ''cache_file'' = Some (JStr name) \<longrightarrow>
                  fs' name = files_after r name) \<longrightarrow>
           ocr_pdf_with_cache e pdf_path index' fs'
             = \<lparr>result = Inr data, index_after = index', files_after = fs', events = []\<rparr>)"
proof (cases "stat e pdf_path")
  case None
  from ocr_stat_fails [OF None] assms(1)
  have "r = \<lparr>result = Inl OSError, index_after = index, files_after = fs, events = []\<rparr>"
    by simp
  with None show ?thesis by simp
next
  case (Some st)
  note c = cache_hit_cases [OF Some assms(1) assms(2) refl refl]
  have 1: "(\<exists>data. result r = Inr data \<and> Hashed pdf_path \<notin> set (events r)) \<longleftrightarrow>
          (\<exists>st d name data. stat e pdf_path = Some st
             \<and> map_of index abs_path = Some (JObj d)
             \<and> py_eq_int (map_of d ''mtime'') (py_int (st_mtime st))
             \<and> py_eq_int (map_of d ''size'') (st_size st)
             \<and> map_of d ''cache_file'' = Some (JStr name)
             \<and> fs name = Some (Parsed data))"
    unfolding c(1) by (auto simp: Some cached_record_hit_iff)
  have 2: "r = \<lparr>result = Inr data, index_after = index, files_after = fs, events = []\<rparr>"
    if "stat e pdf_path = Some st'
             \<and> map_of index abs_path = Some (JObj d)
             \<and> py_eq_int (map_of d ''mtime'') (py_int (st_mtime st'))
             \<and> py_eq_int (map_of d ''size'') (st_size st')
             \<and> map_of d ''cache_file'' = Some (JStr name)
             \<and> fs name = Some (Parsed data)" for st' d name data
  proof -
    from that Some have "st' = st" by simp
    with that
    have "cached_record index abs_path (py_int (st_mtime st)) (st_size st) fs = Inr (Some data)"
      unfolding cached_record_hit_iff by blast
    then show ?thesis by (rule c(2))
  qed
  have 3: "r = process_miss e pdf_path abs_path (py_int (st_mtime st')) (st_size st') index fs
             \<and> Hashed pdf_path \<in> set (events r)"
    if "stat e pdf_path = Some st'
             \<and> map_of index abs_path = Some (JObj d)
             \<and> map_of d ''mtime'' = Some (JInt m) \<and> m \<noteq> py_int (st_mtime st')" for st' d m
  proof -
    from that Some have s: "st' = st" by simp
    with that
    have "cached_record index abs_path (py_int (st_mtime st)) (st_size st) fs = Inr None"
      by (auto simp: cached_record_def)
    from c(3) [OF this] s show ?thesis by (simp add: process_hashed)
  qed
  have 4: "ocr_pdf_with_cache e pdf_path index' fs'
             = \<lparr>result = Inr data, index_after = index', files_after = fs', events = []\<rparr>"
    if "result r = Inr data
             \<and> map_of index' abs_path = map_of (index_after r) abs_path
             \<and> (\<forall>d name. map_of (index_after r) abs_path = Some (JObj d)
                    \<and> map_of d ''cache_file'' = Some (JStr name) \<longrightarrow>
                  fs' name = files_after r name)" for data index' fs'
  proof -
    from that have res: "result r = Inr data"
      and i: "map_of index' abs_path = map_of (index_after r) abs_path"
      and f: "\<forall>d name. map_of (index_after r) abs_path = Some (JObj d)
                    \<and> map_of d ''cache_file'' = Some (JStr name) \<longrightarrow>
                  fs' name = files_after r name"
      by blast+
    have "cached_record index' abs_path (py_int (st_mtime st)) (st_size st) fs'
            = Inr (Some data)"
      using cached_record_cong [OF i f] c(4) [OF res] by simp
    then show ?thesis
      by (simp add: ocr_unfold Some assms(2) [symmetric])
  qed
  from 1 2 3 4 show ?thesis by blast
qed

section \<open>Runs of the sample document\<close>

lemma sample_process:
  "process_miss sample_env sample_pdf ''/docs/a.pdf'' mtime fsize index fs
     = persist sample_env ''/docs/a.pdf'' (hex_of 3) mtime fsize [''one'', ''two''] index fs
         [Hashed sample_pdf, Rasterized sample_pdf, Submitted 1, Submitted 2]"
proof -
  have a: "file_sha256 sample_env sample_pdf 65536 = Inr (hex_of 3)"
    using file_sha256_content [of sample_env sample_pdf "[1, 2, 3]"]
    by (simp add: sample_env_simps)
  have b: "convert_from_path sample_env sample_pdf = Some [[1], [2]]"
    by (simp add: sample_env_simps)
  have c: "pool_delivers sample_env"
    by (simp add: pool_delivers_def sample_env_simps)
  have t: "map (recognized_text sample_env) [[1], [2]] = [''one'', ''two'']"
    by (simp add: recognized_text_def sample_env_def)
  have u: "map Submitted [1..<1 + length [[1::byte], [2]]] = [Submitted 1, Submitted 2]"
    by (simp add: upt_rec)
  have n: "[[1::byte], [2]] \<noteq> []" by simp
  from process_reaches_persist [OF a b n c, of "''/docs/a.pdf''" mtime fsize index fs]
  show ?thesis by (simp only: t u) simp
qed

lemma sample_persist:
  "persist sample_env abs_path sha mtime fsize pages_text index fs ev =
     \<lparr>result = Inr (record_of abs_path sha mtime fsize (sha @ ''.json'') pages_text),
      index_after = AList.update abs_path (entry_of mtime fsize sha (sha @ ''.json'')) index,
      files_after =
        (((fs(tmp_of (sha @ ''.json'') \<mapsto>
               Parsed (record_of abs_path sha mtime fsize (sha @ ''.json'') pages_text),
             sha @ ''.json'' \<mapsto>
               Parsed (record_of abs_path sha mtime fsize (sha @ ''.json'') pages_text)))
           (tmp_of (sha @ ''.json'') := None))
          (tmp_of INDEX_FILE \<mapsto>
             Parsed (JObj (AList.update abs_path
                             (entry_of mtime fsize sha (sha @ ''.json'')) index)),
           INDEX_FILE \<mapsto>
             Parsed (JObj (AList.update abs_path
                             (entry_of mtime fsize sha (sha @ ''.json'')) index))))
          (tmp_of INDEX_FILE := None),
      events = ev @ map FileOp (persist_ops abs_path sha mtime fsize pages_text index)\<rparr>"
  by (simp add: persist_def persist_ops_def save_index_def safe_write_json_result Let_def
      sample_env_simps)

lemma sample_ocr:
  "ocr_pdf_with_cache sample_env sample_pdf index fs =
     (case cached_record index ''/docs/a.pdf'' 100 3 fs of
        Inl err \<Rightarrow> \<lparr>result = Inl err, index_after = index, files_after = fs, events = []\<rparr>
      | Inr None \<Rightarrow>
          persist sample_env ''/docs/a.pdf'' (hex_of 3) 100 3 [''one'', ''two''] index fs
            [Hashed sample_pdf, Rasterized sample_pdf, Submitted 1, Submitted 2]
      | Inr (Some data) \<Rightarrow>
          \<lparr>result = Inr data, index_after = index, files_after = fs, events = []\<rparr>)"
  by (simp add: ocr_unfold sample_env_simps py_int_100 sample_process
      split: sum.splits option.splits)

lemma sample_names:
  "hex_of 3 @ ''.json'' \<noteq> INDEX_FILE"
  "INDEX_FILE \<noteq> hex_of 3 @ ''.json''"
  using record_file_names(1) [of "hex_of 3"] by simp_all

lemma cached_lookup:
  "cached_record cached_index ''/docs/a.pdf'' 100 3 cached_files = Inr (Some sample_record)"
  by (simp add: cached_record_def cached_index_def cached_files_def entry_of_def sample_names)

lemma fresh_lookup: "cached_record [(''/docs/b.pdf'', JNull)] ''/docs/a.pdf'' 100 3 fs = Inr None"
  by (simp add: cached_record_def)

lemma empty_lookup: "cached_record [] abs_path mtime fsize fs = Inr None"
  by (simp add: cached_record_def)

section \<open>The sample document: index, corrupt files, cache hits\<close>

theorem index_touched_at_one_key_witness:
  "''/docs/b.pdf'' \<noteq> resolve_str sample_env sample_pdf
   \<and> map_of (index_after (ocr_pdf_with_cache sample_env sample_pdf
                 [(''/docs/b.pdf'', JNull)] Map.empty)) ''/docs/b.pdf'' = Some JNull
   \<and> Hashed sample_pdf \<notin> set (events (ocr_pdf_with_cache sample_env sample_pdf
                 cached_index cached_files))
   \<and> index_after (ocr_pdf_with_cache sample_env sample_pdf cached_index cached_files)
       = cached_index
   \<and> result (ocr_pdf_with_cache sample_env sample_pdf [(''/docs/b.pdf'', JNull)] Map.empty)
       = Inr sample_record
   \<and> Hashed sample_pdf \<in> set (events (ocr_pdf_with_cache sample_env sample_pdf
                 [(''/docs/b.pdf'', JNull)] Map.empty))
   \<and> index_after (ocr_pdf_with_cache sample_env sample_pdf [(''/docs/b.pdf'', JNull)] Map.empty)
       = [(''/docs/b.pdf'', JNull),
          (''/docs/a.pdf'', entry_of 100 3 (hex_of 3) (hex_of 3 @ ''.json''))]"
proof -
  let ?miss = "ocr_pdf_with_cache sample_env sample_pdf [(''/docs/b.pdf'', JNull)] Map.empty"
  let ?hit = "ocr_pdf_with_cache sample_env sample_pdf cached_index cached_files"
  note miss = index_touched_at_one_key
    [of sample_env sample_pdf "[(''/docs/b.pdf'', JNull)]" Map.empty]
  note hit = index_touched_at_one_key [of sample_env sample_pdf cached_index cached_files]
  have k: "''/docs/b.pdf'' \<noteq> resolve_str sample_env sample_pdf"
    by (simp add: sample_env_simps)
  have h: "Hashed sample_pdf \<notin> set (events ?hit)"
    by (simp add: sample_ocr cached_lookup)
  have r: "result ?miss = Inr sample_record"
    by (simp add: sample_ocr fresh_lookup sample_persist sample_record_def)
  have v: "Hashed sample_pdf \<in> set (events ?miss)"
    by (simp add: sample_ocr fresh_lookup sample_persist)
  from miss k have c1: "map_of (index_after ?miss) ''/docs/b.pdf'' = Some JNull"
    by simp
  from hit h have c2: "index_after ?hit = cached_index"
    by blast
  from miss r v obtain st sha where
    "stat sample_env sample_pdf = Some st" "file_sha256 sample_env sample_pdf 65536 = Inr sha"
    "index_after ?miss = AList.update (resolve_str sample_env sample_pdf)
        (entry_of (py_int (st_mtime st)) (st_size st) sha (sha @ ''.json''))
        [(''/docs/b.pdf'', JNull)]"
    by blast
  then have c3: "index_after ?miss = [(''/docs/b.pdf'', JNull),
          (''/docs/a.pdf'', entry_of 100 3 (hex_of 3) (hex_of 3 @ ''.json''))]"
    using file_sha256_content [of sample_env sample_pdf "[1, 2, 3]"]
    by (auto simp: sample_env_simps py_int_100)
  from k c1 h c2 r v c3 show ?thesis by (simp only: simp_thms)
qed

theorem corrupt_cache_not_fatal_witness:
  "torn_files INDEX_FILE = Some Unparsable
   \<and> load_index torn_files = JObj []
   \<and> stat sample_env sample_pdf = Some \<lparr>st_mtime = 100, st_size = 3\<rparr>
   \<and> map_of cached_index (resolve_str sample_env sample_pdf)
       = Some (JObj [(''mtime'', JInt 100), (''size'', JInt 3), (''sha256'', JStr (hex_of 3)),
                    (''cache_file'', JStr (hex_of 3 @ ''.json''))])
   \<and> torn_files (hex_of 3 @ ''.json'') = Some Unparsable
   \<and> ocr_pdf_with_cache sample_env sample_pdf cached_index torn_files
       = process_miss sample_env sample_pdf ''/docs/a.pdf'' 100 3 cached_index torn_files"
proof -
  let ?d = "[(''mtime'', JInt 100), (''size'', JInt 3), (''sha256'', JStr (hex_of 3)),
             (''cache_file'', JStr (hex_of 3 @ ''.json''))]"
  have a: "torn_files INDEX_FILE = Some Unparsable"
    by (simp add: torn_files_def)
  have b: "stat sample_env sample_pdf = Some \<lparr>st_mtime = 100, st_size = 3\<rparr>"
    by (simp add: sample_env_simps)
  have c: "map_of cached_index (resolve_str sample_env sample_pdf) = Some (JObj ?d)"
    by (simp add: cached_index_def entry_of_def sample_env_simps)
  have d: "map_of ?d ''cache_file'' = Some (JStr (hex_of 3 @ ''.json''))"
    by simp
  have f: "torn_files (hex_of 3 @ ''.json'') = Some Unparsable"
    by (simp add: torn_files_def sample_names)
  note t = corrupt_cache_not_fatal [of torn_files sample_env sample_pdf
      "\<lparr>st_mtime = 100, st_size = 3\<rparr>" cached_index ?d "hex_of 3 @ ''.json''"]
  from t a have l: "load_index torn_files = JObj []" by blast
  from t b c d f
  have "ocr_pdf_with_cache sample_env sample_pdf cached_index torn_files
       = process_miss sample_env sample_pdf (resolve_str sample_env sample_pdf)
           (py_int (st_mtime \<lparr>st_mtime = 100, st_size = 3\<rparr>))
           (st_size \<lparr>st_mtime = 100, st_size = 3\<rparr>) cached_index torn_files"
    by blast
  then have "ocr_pdf_with_cache sample_env sample_pdf cached_index torn_files
       = process_miss sample_env sample_pdf ''/docs/a.pdf'' 100 3 cached_index torn_files"
    by (simp add: sample_env_simps py_int_100)
  with a l b c f show ?thesis by (simp only: simp_thms)
qed

theorem cache_hit_iff_entry_matches_witness:
  "stat sample_env sample_pdf = Some \<lparr>st_mtime = 100, st_size = 3\<rparr>
   \<and> ocr_pdf_with_cache sample_env sample_pdf cached_index cached_files
       = \<lparr>result = Inr sample_record, index_after = cached_index, files_after = cached_files,
          events = []\<rparr>
   \<and> Hashed sample_pdf \<in> set (events (ocr_pdf_with_cache sample_env sample_pdf
                                          stale_index cached_files))
   \<and> result (ocr_pdf_with_cache sample_env sample_pdf [] Map.empty) = Inr sample_record
   \<and> ocr_pdf_with_cache sample_env sample_pdf
        (index_after (ocr_pdf_with_cache sample_env sample_pdf [] Map.empty))
        (files_after (ocr_pdf_with_cache sample_env sample_pdf [] Map.empty))
       = \<lparr>result = Inr sample_record,
          index_after = index_after (ocr_pdf_with_cache sample_env sample_pdf [] Map.empty),
          files_after = files_after (ocr_pdf_with_cache sample_env sample_pdf [] Map.empty),
          events = []\<rparr>
   \<and> ocr_pdf_with_cache sample_env sample_pdf
        ((''/docs/b.pdf'', JNull)
           # index_after (ocr_pdf_with_cache sample_env sample_pdf [] Map.empty))
        ((files_after (ocr_pdf_with_cache sample_env sample_pdf [] Map.empty))
           (INDEX_FILE := None))
       = \<lparr>result = Inr sample_record,
          index_after = (''/docs/b.pdf'', JNull)
            # index_after (ocr_pdf_with_cache sample_env sample_pdf [] Map.empty),
          files_after = (files_after (ocr_pdf_with_cache sample_env sample_pdf [] Map.empty))
            (INDEX_FILE := None),
          events = []\<rparr>"
proof -
  let ?st = "\<lparr>st_mtime = 100, st_size = 3\<rparr>"
  let ?d = "[(''mtime'', JInt 100), (''size'', JInt 3), (''sha256'', JStr (hex_of 3)),
             (''cache_file'', JStr (hex_of 3 @ ''.json''))]"
  let ?old = "[(''mtime'', JInt 99), (''size'', JInt 3), (''sha256'', JStr (hex_of 3)),
             (''cache_file'', JStr (hex_of 3 @ ''.json''))]"
  let ?r = "ocr_pdf_with_cache sample_env sample_pdf [] Map.empty"
  have s: "stat sample_env sample_pdf = Some ?st"
    by (simp add: sample_env_simps)
  have a: "''/docs/a.pdf'' = resolve_str sample_env sample_pdf"
    by (simp add: sample_env_simps)
  note hit = cache_hit_iff_entry_matches [OF refl a, of cached_index cached_files]
  note stale = cache_hit_iff_entry_matches [OF refl a, of stale_index cached_files]
  note fresh = cache_hit_iff_entry_matches [OF refl a, of "[]" Map.empty]
  have h: "stat sample_env sample_pdf = Some ?st
      \<and> map_of cached_index ''/docs/a.pdf'' = Some (JObj ?d)
      \<and> py_eq_int (map_of ?d ''mtime'') (py_int (st_mtime ?st))
      \<and> py_eq_int (map_of ?d ''size'') (st_size ?st)
      \<and> map_of ?d ''cache_file'' = Some (JStr (hex_of 3 @ ''.json''))
      \<and> cached_files (hex_of 3 @ ''.json'') = Some (Parsed sample_record)"
    by (simp add: s cached_index_def cached_files_def entry_of_def sample_names py_int_100)
  from hit h
  have c1: "ocr_pdf_with_cache sample_env sample_pdf cached_index cached_files
       = \<lparr>result = Inr sample_record, index_after = cached_index, files_after = cached_files,
          events = []\<rparr>"
    by blast
  have o: "stat sample_env sample_pdf = Some ?st
      \<and> map_of stale_index ''/docs/a.pdf'' = Some (JObj ?old)
      \<and> map_of ?old ''mtime'' = Some (JInt 99) \<and> 99 \<noteq> py_int (st_mtime ?st)"
    by (simp add: s stale_index_def entry_of_def py_int_100)
  from stale o
  have c2: "Hashed sample_pdf \<in> set (events (ocr_pdf_with_cache sample_env sample_pdf
                                          stale_index cached_files))"
    by blast
  have r: "result ?r = Inr sample_record"
    by (simp add: sample_ocr empty_lookup sample_persist sample_record_def)
  have i: "index_after ?r
             = [(''/docs/a.pdf'', entry_of 100 3 (hex_of 3) (hex_of 3 @ ''.json''))]"
    by (simp add: sample_ocr empty_lookup sample_persist)
  have same: "result ?r = Inr sample_record
      \<and> map_of (index_after ?r) ''/docs/a.pdf'' = map_of (index_after ?r) ''/docs/a.pdf''
      \<and> (\<forall>d name. map_of (index_after ?r) ''/docs/a.pdf'' = Some (JObj d)
              \<and> map_of d ''cache_file'' = Some (JStr name) \<longrightarrow>
            files_after ?r name = files_after ?r name)"
    using r by simp
  from fresh same
  have c3: "ocr_pdf_with_cache sample_env sample_pdf (index_after ?r) (files_after ?r)
       = \<lparr>result = Inr sample_record, index_after = index_after ?r,
          files_after = files_after ?r, events = []\<rparr>"
    by blast
  have other: "result ?r = Inr sample_record
      \<and> map_of ((''/docs/b.pdf'', JNull) # index_after ?r) ''/docs/a.pdf''
          = map_of (index_after ?r) ''/docs/a.pdf''
      \<and> (\<forall>d name. map_of (index_after ?r) ''/docs/a.pdf'' = Some (JObj d)
              \<and> map_of d ''cache_file'' = Some (JStr name) \<longrightarrow>
            ((files_after ?r)(INDEX_FILE := None)) name = files_after ?r name)"
    using r by (auto simp: i entry_of_def sample_names)
  from fresh other
  have c4: "ocr_pdf_with_cache sample_env sample_pdf
        ((''/docs/b.pdf'', JNull) # index_after ?r) ((files_after ?r)(INDEX_FILE := None))
       = \<lparr>result = Inr sample_record,
          index_after = (''/docs/b.pdf'', JNull) # index_after ?r,
          files_after = (files_after ?r)(INDEX_FILE := None), events = []\<rparr>"
    by blast
  from s c1 c2 r c3 c4 show ?thesis by (simp only: simp_thms)
qed

section \<open>Failing writes\<close>

lemma persist_fails:
  assumes "write_outcome e (tmp_of (sha @ ''.json'')) \<noteq> WriteOk
         \<or> \<not> replace_ok e (tmp_of (sha @ ''.json''))
         \<or> write_outcome e (tmp_of INDEX_FILE) \<noteq> WriteOk
         \<or> \<not> replace_ok e (tmp_of INDEX_FILE)"
  shows "result (persist e abs_path sha mtime fsize pages_text index fs ev) = Inl OSError"
  using assms
  by (auto simp: persist_def save_index_def safe_write_json_result Let_def
      split: write_outcome.splits)

lemma persist_record_fails:
  assumes "write_outcome e (tmp_of (sha @ ''.json'')) \<noteq> WriteOk
         \<or> \<not> replace_ok e (tmp_of (sha @ ''.json''))"
    and "length sha = 64"
  shows "index_after (persist e abs_path sha mtime fsize pages_text index fs ev) = index
       \<and> files_after (persist e abs_path sha mtime fsize pages_text index fs ev) INDEX_FILE
           = fs INDEX_FILE
       \<and> files_after (persist e abs_path sha mtime fsize pages_text index fs ev)
           (sha @ ''.json'') = fs (sha @ ''.json'')"
  using assms(1) record_file_names [OF assms(2)]
  by (auto simp: persist_def save_index_def safe_write_json_result Let_def
      split: write_outcome.splits)

text \<open>
  C7 (as amended). When a document has been processed up to the writes and writing or
  renaming the record file or the index file fails, the error leaves
  \<open>ocr_pdf_with_cache\<close>: no record is returned. The loop of \<open>main\<close> reports the
  error for this document, adds nothing to \<open>all_data\<close> and goes on with the other
  documents. When it was the record that could not be written, the index is unchanged
  in memory and on disk, and so is the record file.
\<close>

theorem persistence_failure_propagates:
  assumes "stat e pdf = Some st"
    and "cached_record index (resolve_str e pdf) (py_int (st_mtime st)) (st_size st) fs
           = Inr None"
    and "file_sha256 e pdf 65536 = Inr sha"
    and "convert_from_path e pdf = Some images"
    and "images \<noteq> []"
    and "pool_delivers e"
    and "write_outcome e (tmp_of (sha @ ''.json'')) \<noteq> WriteOk
         \<or> \<not> replace_ok e (tmp_of (sha @ ''.json''))
         \<or> write_outcome e (tmp_of INDEX_FILE) \<noteq> WriteOk
         \<or> \<not> replace_ok e (tmp_of INDEX_FILE)"
  shows "result (ocr_pdf_with_cache e pdf index fs) = Inl OSError
       \<and> process_documents e (pdf # rest) index fs acc errs
           = process_documents e rest
               (index_after (ocr_pdf_with_cache e pdf index fs))
               (files_after (ocr_pdf_with_cache e pdf index fs))
               acc (errs @ [(pdf, OSError)])
       \<and> (write_outcome e (tmp_of (sha @ ''.json'')) \<noteq> WriteOk
            \<or> \<not> replace_ok e (tmp_of (sha @ ''.json'')) \<longrightarrow>
          index_after (ocr_pdf_with_cache e pdf index fs) = index
          \<and> files_after (ocr_pdf_with_cache e pdf index fs) INDEX_FILE = fs INDEX_FILE
          \<and> files_after (ocr_pdf_with_cache e pdf index fs) (sha @ ''.json'')
              = fs (sha @ ''.json''))"
proof -
  let ?a = "resolve_str e pdf" and ?m = "py_int (st_mtime st)" and ?s = "st_size st"
  let ?ev = "[Hashed pdf, Rasterized pdf] @ map Submitted [1..<1 + length images]"
  let ?p = "persist e ?a sha ?m ?s (map (recognized_text e) images) index fs ?ev"
  have o: "ocr_pdf_with_cache e pdf index fs = ?p"
    using process_reaches_persist [OF assms(3) assms(4) assms(5) assms(6), of ?a ?m ?s index fs]
    by (simp add: ocr_unfold assms(1) assms(2))
  have r: "result (ocr_pdf_with_cache e pdf index fs) = Inl OSError"
    unfolding o by (rule persist_fails [OF assms(7)])
  have l: "length sha = 64" by (rule length_file_sha256 [OF assms(3)])
  have m: "process_documents e (pdf # rest) index fs acc errs
           = process_documents e rest
               (index_after (ocr_pdf_with_cache e pdf index fs))
               (files_after (ocr_pdf_with_cache e pdf index fs))
               acc (errs @ [(pdf, OSError)])"
    by (simp add: Let_def r)
  have f: "write_outcome e (tmp_of (sha @ ''.json'')) \<noteq> WriteOk
            \<or> \<not> replace_ok e (tmp_of (sha @ ''.json'')) \<longrightarrow>
          index_after (ocr_pdf_with_cache e pdf index fs) = index
          \<and> files_after (ocr_pdf_with_cache e pdf index fs) INDEX_FILE = fs INDEX_FILE
          \<and> files_after (ocr_pdf_with_cache e pdf index fs) (sha @ ''.json'')
              = fs (sha @ ''.json'')"
    unfolding o using persist_record_fails [OF _ l] by blast
  from r m f show ?thesis by (simp only: simp_thms)
qed

lemma readonly_env_simps:
  "stat readonly_env p = Some \<lparr>st_mtime = 100, st_size = 3\<rparr>"
  "read_file readonly_env p = Some [1, 2, 3]"
  "sha256 readonly_env [1, 2, 3] = 3"
  "convert_from_path readonly_env p = Some [[1], [2]]"
  "pool_delivers readonly_env"
  "write_outcome readonly_env name = OpenFails"
  "resolve_str readonly_env sample_pdf = ''/docs/a.pdf''"
  "can_allocate readonly_env 65536"
  by (simp_all add: readonly_env_def sample_env_simps pool_delivers_def)

theorem persistence_failure_propagates_witness:
  "stat readonly_env sample_pdf = Some \<lparr>st_mtime = 100, st_size = 3\<rparr>
   \<and> file_sha256 readonly_env sample_pdf 65536 = Inr (hex_of 3)
   \<and> convert_from_path readonly_env sample_pdf = Some [[1], [2]]
   \<and> pool_delivers readonly_env
   \<and> write_outcome readonly_env (tmp_of (hex_of 3 @ ''.json'')) \<noteq> WriteOk
   \<and> result (ocr_pdf_with_cache readonly_env sample_pdf [] Map.empty) = Inl OSError
   \<and> process_documents readonly_env [sample_pdf, sample_pdf] [] Map.empty [] []
       = process_documents readonly_env [sample_pdf]
           (index_after (ocr_pdf_with_cache readonly_env sample_pdf [] Map.empty))
           (files_after (ocr_pdf_with_cache readonly_env sample_pdf [] Map.empty))
           [] [(sample_pdf, OSError)]
   \<and> index_after (ocr_pdf_with_cache readonly_env sample_pdf [] Map.empty) = []"
proof -
  have a: "stat readonly_env sample_pdf = Some \<lparr>st_mtime = 100, st_size = 3\<rparr>"
    by (simp add: readonly_env_simps)
  have b: "cached_record [] (resolve_str readonly_env sample_pdf)
            (py_int (st_mtime \<lparr>st_mtime = 100, st_size = 3\<rparr>))
            (st_size \<lparr>st_mtime = 100, st_size = 3\<rparr>) Map.empty = Inr None"
    by (rule empty_lookup)
  have c: "file_sha256 readonly_env sample_pdf 65536 = Inr (hex_of 3)"
    using file_sha256_content [of readonly_env sample_pdf "[1, 2, 3]"]
    by (simp add: readonly_env_simps)
  have d: "convert_from_path readonly_env sample_pdf = Some [[1], [2]]"
    by (simp add: readonly_env_simps)
  have n: "[[1::byte], [2]] \<noteq> []" by simp
  have p: "pool_delivers readonly_env" by (simp add: readonly_env_simps)
  have w: "write_outcome readonly_env (tmp_of (hex_of 3 @ ''.json'')) \<noteq> WriteOk"
    by (simp add: readonly_env_simps)
  then have f: "write_outcome readonly_env (tmp_of (hex_of 3 @ ''.json'')) \<noteq> WriteOk
         \<or> \<not> replace_ok readonly_env (tmp_of (hex_of 3 @ ''.json''))
         \<or> write_outcome readonly_env (tmp_of INDEX_FILE) \<noteq> WriteOk
         \<or> \<not> replace_ok readonly_env (tmp_of INDEX_FILE)"
    by simp
  from persistence_failure_propagates [OF a b c d n p f, of "[sample_pdf]" "[]" "[]"] w
  have "result (ocr_pdf_with_cache readonly_env sample_pdf [] Map.empty) = Inl OSError
   \<and> process_documents readonly_env [sample_pdf, sample_pdf] [] Map.empty [] []
       = process_documents readonly_env [sample_pdf]
           (index_after (ocr_pdf_with_cache readonly_env sample_pdf [] Map.empty))
           (files_after (ocr_pdf_with_cache readonly_env sample_pdf [] Map.empty))
           [] [(sample_pdf, OSError)]
   \<and> index_after (ocr_pdf_with_cache readonly_env sample_pdf [] Map.empty) = []"
    by simp
  with a c d p w show ?thesis by (simp only: simp_thms)
qed

text \<open>
  C7 as stated fails: in a cache directory that cannot be written, both pages of the
  sample document are recognised, yet the call ends with the error and \<open>main\<close> has
  no data for the document.
\<close>

theorem record_lost_counterexample:
  "map (recognized_text readonly_env) [[1], [2]] = [''one'', ''two'']
   \<and> result (ocr_pdf_with_cache readonly_env sample_pdf [] Map.empty) = Inl OSError
   \<and> all_data (process_documents readonly_env [sample_pdf] [] Map.empty [] []) = []
   \<and> reported (process_documents readonly_env [sample_pdf] [] Map.empty [] [])
       = [(sample_pdf, OSError)]"
proof -
  have t: "map (recognized_text readonly_env) [[1], [2]] = [''one'', ''two'']"
    by (simp add: recognized_text_def readonly_env_def sample_env_def)
  have c: "file_sha256 readonly_env sample_pdf 65536 = Inr (hex_of 3)"
    using file_sha256_content [of readonly_env sample_pdf "[1, 2, 3]"]
    by (simp add: readonly_env_simps)
  have n: "[[1::byte], [2]] \<noteq> []" by simp
  have "ocr_pdf_with_cache readonly_env sample_pdf [] Map.empty
      = persist readonly_env ''/docs/a.pdf'' (hex_of 3) 100 3
          (map (recognized_text readonly_env) [[1], [2]]) [] Map.empty
          ([Hashed sample_pdf, Rasterized sample_pdf]
             @ map Submitted [1..<1 + length [[1::byte], [2]]])"
    using process_reaches_persist [OF c readonly_env_simps(4) n readonly_env_simps(5),
        of "''/docs/a.pdf''" 100 3 "[]" Map.empty]
    by (simp add: ocr_unfold readonly_env_simps empty_lookup py_int_100)
  then have r: "result (ocr_pdf_with_cache readonly_env sample_pdf [] Map.empty) = Inl OSError"
    by (simp add: persist_fails readonly_env_simps)
  then have "all_data (process_documents readonly_env [sample_pdf] [] Map.empty [] []) = []"
    and "reported (process_documents readonly_env [sample_pdf] [] Map.empty [] [])
       = [(sample_pdf, OSError)]"
    by (simp_all add: Let_def)
  with t r show ?thesis by (simp only: simp_thms)
qed

section \<open>Crashes\<close>

lemma persist_ops_unfold:
  "persist_ops abs_path sha mtime fsize pages_text index =
     [WriteText (tmp_of (sha @ ''.json''))
        (record_of abs_path sha mtime fsize (sha @ ''.json'') pages_text),
      Replace (tmp_of (sha @ ''.json'')) (sha @ ''.json''),
      WriteText (tmp_of INDEX_FILE)
        (JObj (AList.update abs_path (entry_of mtime fsize sha (sha @ ''.json'')) index)),
      Replace (tmp_of INDEX_FILE) INDEX_FILE]"
  by (simp add: persist_ops_def safe_write_json_ops_def)

lemma run_ops_Replace:
  "can_replace e fs src \<Longrightarrow>
     run_ops e (Replace src dst # ops) fs =
       (case run_ops e ops (apply_op (Replace src dst) fs) of
          (r, fs', completed) \<Rightarrow> (r, fs', Replace src dst # completed))"
  "\<not> can_replace e fs src \<Longrightarrow>
     run_ops e (Replace src dst # ops) fs = (Inl OSError, fs, [])"
  by (simp_all del: apply_op.simps)

lemma run_ops_WriteText:
  "write_outcome e name = WriteOk \<Longrightarrow>
     run_ops e (WriteText name obj # ops) fs =
       (case run_ops e ops (apply_op (WriteText name obj) fs) of
          (r, fs', completed) \<Rightarrow> (r, fs', WriteText name obj # completed))"
  "write_outcome e name = OpenFails \<Longrightarrow>
     run_ops e (WriteText name obj # ops) fs = (Inl OSError, fs, [])"
  "write_outcome e name = WriteFailsPartway \<Longrightarrow>
     run_ops e (WriteText name obj # ops) fs = (Inl OSError, fs(name \<mapsto> Unparsable), [])"
  by (simp_all del: apply_op.simps)

lemma run_ops_prefix: "\<exists>k. snd (snd (run_ops e ops fs)) = take k ops"
proof (induction e ops fs rule: run_ops.induct)
  case (1 e fs)
  then show ?case by simp
next
  case (2 e name obj ops fs)
  show ?case
  proof (cases "write_outcome e name")
    case WriteOk
    with 2 obtain k where
      "snd (snd (run_ops e ops (apply_op (WriteText name obj) fs))) = take k ops"
      by blast
    then have "snd (snd (run_ops e (WriteText name obj # ops) fs))
        = take (Suc k) (WriteText name obj # ops)"
      by (simp only: run_ops_WriteText(1) [OF WriteOk] case_prod_unfold snd_conv take_Suc_Cons)
    then show ?thesis by blast
  next
    case OpenFails
    then have "snd (snd (run_ops e (WriteText name obj # ops) fs))
        = take 0 (WriteText name obj # ops)"
      by (simp only: run_ops_WriteText(2) snd_conv take_0)
    then show ?thesis by blast
  next
    case WriteFailsPartway
    then have "snd (snd (run_ops e (WriteText name obj # ops) fs))
        = take 0 (WriteText name obj # ops)"
      by (simp only: run_ops_WriteText(3) snd_conv take_0)
    then show ?thesis by blast
  qed
next
  case (3 e src dst ops fs)
  show ?case
  proof (cases "can_replace e fs src")
    case True
    from 3 [OF True] obtain k where
      "snd (snd (run_ops e ops (apply_op (Replace src dst) fs))) = take k ops"
      by blast
    then have "snd (snd (run_ops e (Replace src dst # ops) fs))
        = take (Suc k) (Replace src dst # ops)"
      by (simp only: run_ops_Replace(1) [OF True] case_prod_unfold snd_conv take_Suc_Cons)
    then show ?thesis by blast
  next
    case False
    then have "snd (snd (run_ops e (Replace src dst # ops) fs))
        = take 0 (Replace src dst # ops)"
      by (simp only: run_ops_Replace(2) [OF False] snd_conv take_0)
    then show ?thesis by blast
  qed
qed

lemma run_ops_crash_state: "fst (snd (run_ops e ops fs)) \<in> set (crash_states ops fs)"
proof (induction e ops fs rule: run_ops.induct)
  case (1 e fs)
  then show ?case by simp
next
  case (2 e name obj ops fs)
  show ?case
  proof (cases "write_outcome e name")
    case WriteOk
    from 2 [OF WriteOk] show ?thesis
      by (simp add: run_ops_WriteText(1) [OF WriteOk] case_prod_unfold
          del: apply_op.simps run_ops.simps)
  next
    case OpenFails
    then show ?thesis
      by (simp add: run_ops_WriteText(2) del: apply_op.simps run_ops.simps)
  next
    case WriteFailsPartway
    then have "fst (snd (run_ops e (WriteText name obj # ops) fs)) = fs(name \<mapsto> Unparsable)"
      by (simp only: run_ops_WriteText(3) fst_conv snd_conv)
    then show ?thesis
      by (simp only: crash_states.simps interrupted.simps list.set append.simps insert_iff
          simp_thms)
  qed
next
  case (3 e src dst ops fs)
  show ?case
  proof (cases "can_replace e fs src")
    case True
    from 3 [OF True] show ?thesis
      by (simp add: run_ops_Replace(1) [OF True] case_prod_unfold
          del: apply_op.simps run_ops.simps)
  next
    case False
    then show ?thesis
      by (simp add: run_ops_Replace(2) del: apply_op.simps run_ops.simps)
  qed
qed

lemma run_ops_append:
  "run_ops e (ops1 @ ops2) fs =
     (case run_ops e ops1 fs of
        (r1, fs1, done1) \<Rightarrow>
          (case r1 of
             Inl err \<Rightarrow> (Inl err, fs1, done1)
           | Inr u \<Rightarrow> (case run_ops e ops2 fs1 of (r2, fs2, done2) \<Rightarrow> (r2, fs2, done1 @ done2))))"
proof (induction e ops1 fs rule: run_ops.induct)
  case (1 e fs)
  then show ?case by (simp add: case_prod_unfold)
next
  case (2 e name obj ops fs)
  show ?case
  proof (cases "write_outcome e name")
    case WriteOk
    from 2 [OF WriteOk] show ?thesis
      by (simp add: run_ops_WriteText(1) [OF WriteOk] case_prod_unfold
          del: apply_op.simps run_ops.simps split: sum.splits)
  next
    case OpenFails
    then show ?thesis
      by (simp add: run_ops_WriteText(2) del: apply_op.simps run_ops.simps)
  next
    case WriteFailsPartway
    then show ?thesis
      by (simp add: run_ops_WriteText(3) del: apply_op.simps run_ops.simps)
  qed
next
  case (3 e src dst ops fs)
  show ?case
  proof (cases "can_replace e fs src")
    case True
    from 3 [OF True] show ?thesis
      by (simp add: run_ops_Replace(1) [OF True] case_prod_unfold
          del: apply_op.simps run_ops.simps split: sum.splits)
  next
    case False
    then show ?thesis
      by (simp add: run_ops_Replace(2) del: apply_op.simps run_ops.simps)
  qed
qed

lemma persist_as_run_ops:
  "files_after (persist e abs_path sha mtime fsize pages_text index fs ev)
     = fst (snd (run_ops e (persist_ops abs_path sha mtime fsize pages_text index) fs))
   \<and> events (persist e abs_path sha mtime fsize pages_text index fs ev)
     = ev @ map FileOp
         (snd (snd (run_ops e (persist_ops abs_path sha mtime fsize pages_text index) fs)))"
  by (simp add: persist_def persist_ops_def save_index_def safe_write_json_def Let_def
      run_ops_append split: prod.splits sum.splits)

lemma record_name_digest: "length sha = 64 \<Longrightarrow> record_name (sha @ ''.json'')"
  by (simp add: record_name_def)

lemma record_name_neq:
  assumes "record_name n" and "length sha = 64"
  shows "n \<noteq> tmp_of (sha @ ''.json'')" and "n \<noteq> tmp_of INDEX_FILE" and "n \<noteq> INDEX_FILE"
  using assms by (simp_all add: neq_by_length record_name_def INDEX_FILE_def tmp_of_def)

lemma entry_ref_entry_of: "entry_ref (entry_of mtime fsize sha name) = [name]"
  by (simp add: entry_ref_def entry_of_def)

lemma referenced_update:
  "set (referenced (JObj (AList.update k (entry_of mtime fsize sha name) idx)))
     \<subseteq> insert name (set (referenced (JObj idx)))"
  by (induction idx) (auto simp: referenced_def entry_ref_entry_of)

lemma load_index_cong: "s INDEX_FILE = fs INDEX_FILE \<Longrightarrow> load_index s = load_index fs"
  by (simp add: load_index_def)

lemma crash_state_props:
  assumes "s \<in> set (crash_states (persist_ops abs_path sha mtime fsize pages_text index) fs)"
    and "length sha = 64"
  shows "(\<forall>n. record_name n \<longrightarrow> readable fs n \<longrightarrow> readable s n)
       \<and> (s INDEX_FILE = fs INDEX_FILE
          \<or> (s INDEX_FILE = Some (Parsed (JObj (AList.update abs_path
                    (entry_of mtime fsize sha (sha @ ''.json'')) index)))
             \<and> readable s (sha @ ''.json'')))"
proof -
  have nn: "\<forall>n. record_name n \<longrightarrow>
      n \<noteq> tmp_of (sha @ ''.json'') \<and> n \<noteq> tmp_of INDEX_FILE \<and> n \<noteq> INDEX_FILE"
    using record_name_neq [OF _ assms(2)] by blast
  note names = record_file_names [OF assms(2)] index_file_names
  from assms(1) names nn show ?thesis
    by (auto simp: persist_ops_unfold readable_def)
qed

lemma persist_index_cases:
  assumes "length sha = 64"
  shows "index_after (persist e abs_path sha mtime fsize pages_text index fs ev) = index
       \<or> (index_after (persist e abs_path sha mtime fsize pages_text index fs ev)
            = AList.update abs_path (entry_of mtime fsize sha (sha @ ''.json'')) index
          \<and> readable (files_after (persist e abs_path sha mtime fsize pages_text index fs ev))
              (sha @ ''.json''))"
  using record_file_names [OF assms]
  by (auto simp: persist_def save_index_def safe_write_json_result Let_def readable_def
      split: write_outcome.splits)

lemma backed_by_kept:
  assumes "\<forall>n. record_name n \<longrightarrow> readable fs n \<longrightarrow> readable s n"
    and "backed_by fs idx"
    and "list_all record_name (referenced idx)"
  shows "backed_by s idx"
  using assms by (auto simp: backed_by_def list_all_iff)

lemma backed_by_new_entry:
  assumes "\<forall>n. record_name n \<longrightarrow> readable fs n \<longrightarrow> readable s n"
    and "backed_by fs (JObj index)"
    and "list_all record_name (referenced (JObj index))"
    and "readable s name"
  shows "backed_by s (JObj (AList.update abs_path (entry_of mtime fsize sha name) index))"
proof -
  have "readable s n"
    if "n \<in> set (referenced (JObj (AList.update abs_path (entry_of mtime fsize sha name) index)))"
    for n
  proof (cases "n = name")
    case True
    with assms(4) show ?thesis by simp
  next
    case False
    with that referenced_update [of abs_path mtime fsize sha name index]
    have "n \<in> set (referenced (JObj index))" by blast
    with assms(1) assms(2) assms(3) show ?thesis
      by (auto simp: backed_by_def list_all_iff)
  qed
  then show ?thesis by (simp add: backed_by_def list_all_iff)
qed

lemma new_entry_named:
  assumes "length sha = 64"
    and "list_all record_name (referenced (JObj index))"
  shows "list_all record_name
           (referenced (JObj (AList.update abs_path
                               (entry_of mtime fsize sha (sha @ ''.json'')) index)))"
  using referenced_update [of abs_path mtime fsize sha "sha @ ''.json''" index]
    record_name_digest [OF assms(1)] assms(2)
  by (auto simp: list_all_iff)

lemma crash_state_consistent:
  assumes "length sha = 64"
    and "backed_by fs (JObj index)"
    and "consistent fs"
    and "list_all record_name (referenced (JObj index))"
    and "list_all record_name (referenced (load_index fs))"
    and "s \<in> set (crash_states (persist_ops abs_path sha mtime fsize pages_text index) fs)"
  shows "consistent s
       \<and> list_all record_name (referenced (load_index s))
       \<and> (load_index s = load_index fs
          \<or> load_index s = JObj (AList.update abs_path
                (entry_of mtime fsize sha (sha @ ''.json'')) index))"
proof -
  let ?new = "AList.update abs_path (entry_of mtime fsize sha (sha @ ''.json'')) index"
  from crash_state_props [OF assms(6) assms(1)]
  have keep: "\<forall>n. record_name n \<longrightarrow> readable fs n \<longrightarrow> readable s n"
    and idx: "s INDEX_FILE = fs INDEX_FILE
          \<or> (s INDEX_FILE = Some (Parsed (JObj ?new)) \<and> readable s (sha @ ''.json''))"
    by blast+
  from idx show ?thesis
  proof
    assume "s INDEX_FILE = fs INDEX_FILE"
    then have l: "load_index s = load_index fs" by (rule load_index_cong)
    from assms(3) have "backed_by fs (load_index fs)" by (simp add: consistent_def)
    from backed_by_kept [OF keep this assms(5)] l assms(5) show ?thesis
      by (simp add: consistent_def)
  next
    assume n: "s INDEX_FILE = Some (Parsed (JObj ?new)) \<and> readable s (sha @ ''.json'')"
    then have l: "load_index s = JObj ?new" by (simp add: load_index_def)
    from n have "readable s (sha @ ''.json'')" by simp
    from backed_by_new_entry [OF keep assms(2) assms(4) this]
      new_entry_named [OF assms(1) assms(4)] l
    show ?thesis by (simp add: consistent_def)
  qed
qed

text \<open>
  C5. The writes of a cache miss are, in this order: the record to a temporary file
  beside it, the rename over the record file, the index to a temporary file beside
  it, the rename over the index file; whatever fails, what was done is a prefix of
  this list. Let the cache be consistent before (every record file named by the index
  in memory or on disk exists and parses, under a name of the form digest.json).
  Then after a crash at any point, and after any failed write, every record file
  named by the index on disk exists and parses, and that index is the old one or the
  new one. What \<open>persist\<close> leaves behind is consistent in the same sense, so the
  next document starts from such a cache again.
\<close>

theorem crash_leaves_cache_consistent:
  assumes "length sha = 64"
    and "backed_by fs (JObj index)"
    and "consistent fs"
    and "list_all record_name (referenced (JObj index))"
    and "list_all record_name (referenced (load_index fs))"
  shows "persist_ops abs_path sha mtime fsize pages_text index =
           [WriteText (tmp_of (sha @ ''.json''))
              (record_of abs_path sha mtime fsize (sha @ ''.json'') pages_text),
            Replace (tmp_of (sha @ ''.json'')) (sha @ ''.json''),
            WriteText (tmp_of INDEX_FILE)
              (JObj (AList.update abs_path (entry_of mtime fsize sha (sha @ ''.json'')) index)),
            Replace (tmp_of INDEX_FILE) INDEX_FILE]
       \<and> (\<exists>k. events (persist e abs_path sha mtime fsize pages_text index fs ev)
              = ev @ map FileOp
                  (take k (persist_ops abs_path sha mtime fsize pages_text index)))
       \<and> files_after (persist e abs_path sha mtime fsize pages_text index fs ev)
           \<in> set (crash_states (persist_ops abs_path sha mtime fsize pages_text index) fs)
       \<and> (\<forall>s \<in> set (crash_states (persist_ops abs_path sha mtime fsize pages_text index) fs).
            consistent s
            \<and> (load_index s = load_index fs
               \<or> load_index s = JObj (AList.update abs_path
                     (entry_of mtime fsize sha (sha @ ''.json'')) index)))
       \<and> backed_by (files_after (persist e abs_path sha mtime fsize pages_text index fs ev))
           (JObj (index_after (persist e abs_path sha mtime fsize pages_text index fs ev)))
       \<and> list_all record_name
           (referenced (JObj (index_after
              (persist e abs_path sha mtime fsize pages_text index fs ev))))
       \<and> list_all record_name
           (referenced (load_index (files_after
              (persist e abs_path sha mtime fsize pages_text index fs ev))))"
proof -
  let ?ops = "persist_ops abs_path sha mtime fsize pages_text index"
  let ?new = "AList.update abs_path (entry_of mtime fsize sha (sha @ ''.json'')) index"
  let ?p = "persist e abs_path sha mtime fsize pages_text index fs ev"
  have ops: "?ops =
           [WriteText (tmp_of (sha @ ''.json''))
              (record_of abs_path sha mtime fsize (sha @ ''.json'') pages_text),
            Replace (tmp_of (sha @ ''.json'')) (sha @ ''.json''),
            WriteText (tmp_of INDEX_FILE) (JObj ?new),
            Replace (tmp_of INDEX_FILE) INDEX_FILE]"
    by (rule persist_ops_unfold)
  have pre: "\<exists>k. events ?p = ev @ map FileOp (take k ?ops)"
    using run_ops_prefix [of e ?ops fs] by (auto simp: persist_as_run_ops)
  have mem: "files_after ?p \<in> set (crash_states ?ops fs)"
    by (simp add: persist_as_run_ops run_ops_crash_state)
  have all: "\<forall>s \<in> set (crash_states ?ops fs).
      consistent s \<and> (load_index s = load_index fs \<or> load_index s = JObj ?new)"
    using crash_state_consistent [OF assms] by blast
  from crash_state_props [OF mem assms(1)]
  have keep: "\<forall>n. record_name n \<longrightarrow> readable fs n \<longrightarrow> readable (files_after ?p) n"
    by blast
  from persist_index_cases [OF assms(1), of e abs_path mtime fsize pages_text index fs ev]
  have mem_inv: "backed_by (files_after ?p) (JObj (index_after ?p))
      \<and> list_all record_name (referenced (JObj (index_after ?p)))"
  proof
    assume "index_after ?p = index"
    with backed_by_kept [OF keep assms(2) assms(4)] assms(4) show ?thesis by simp
  next
    assume n: "index_after ?p = ?new \<and> readable (files_after ?p) (sha @ ''.json'')"
    then have "readable (files_after ?p) (sha @ ''.json'')" by simp
    from backed_by_new_entry [OF keep assms(2) assms(4) this]
      new_entry_named [OF assms(1) assms(4)] n
    show ?thesis by simp
  qed
  have disk_inv: "list_all record_name (referenced (load_index (files_after ?p)))"
    using crash_state_consistent [OF assms mem] by blast
  from ops pre mem all mem_inv disk_inv show ?thesis by (simp only: simp_thms)
qed

lemma torn_index_env_simps:
  "write_outcome torn_index_env (tmp_of (hex_of 7 @ ''.json'')) = WriteOk"
  "write_outcome torn_index_env (tmp_of INDEX_FILE) = WriteFailsPartway"
  "replace_ok torn_index_env name"
  using record_file_names(5) [of "hex_of 7"]
  by (simp_all add: torn_index_env_def sample_env_simps)

theorem crash_leaves_cache_consistent_witness:
  "length (hex_of 7) = 64
   \<and> backed_by cached_files (JObj cached_index)
   \<and> consistent cached_files
   \<and> list_all record_name (referenced (JObj cached_index))
   \<and> list_all record_name (referenced (load_index cached_files))
   \<and> files_after (persist torn_index_env ''/docs/b.pdf'' (hex_of 7) 100 3 [''text'']
         cached_index cached_files [])
       = cached_files
           (tmp_of (hex_of 7 @ ''.json'') := None,
            hex_of 7 @ ''.json'' \<mapsto>
              Parsed (record_of ''/docs/b.pdf'' (hex_of 7) 100 3 (hex_of 7 @ ''.json'')
                        [''text'']),
            tmp_of INDEX_FILE \<mapsto> Unparsable)
   \<and> consistent (files_after (persist torn_index_env ''/docs/b.pdf'' (hex_of 7) 100 3
         [''text''] cached_index cached_files []))
   \<and> load_index (files_after (persist torn_index_env ''/docs/b.pdf'' (hex_of 7) 100 3
         [''text''] cached_index cached_files []))
       = JObj cached_index"
proof -
  let ?p = "persist torn_index_env ''/docs/b.pdf'' (hex_of 7) 100 3 [''text'']
         cached_index cached_files []"
  have a: "length (hex_of 7) = 64" by simp
  have r: "referenced (JObj cached_index) = [hex_of 3 @ ''.json'']"
    by (simp add: referenced_def cached_index_def entry_ref_entry_of)
  have l: "load_index cached_files = JObj cached_index"
    by (simp add: load_index_def cached_files_def)
  have b: "backed_by cached_files (JObj cached_index)"
    by (simp add: backed_by_def r readable_def cached_files_def sample_names)
  have c: "consistent cached_files"
    by (simp add: consistent_def l b)
  have d: "list_all record_name (referenced (JObj cached_index))"
    by (simp add: r record_name_digest)
  have f: "list_all record_name (referenced (load_index cached_files))"
    by (simp add: l d)
  have st: "files_after ?p
       = cached_files
           (tmp_of (hex_of 7 @ ''.json'') := None,
            hex_of 7 @ ''.json'' \<mapsto>
              Parsed (record_of ''/docs/b.pdf'' (hex_of 7) 100 3 (hex_of 7 @ ''.json'')
                        [''text'']),
            tmp_of INDEX_FILE \<mapsto> Unparsable)"
    using record_file_names [of "hex_of 7"]
    by (simp add: persist_def save_index_def safe_write_json_result Let_def
        torn_index_env_simps fun_upd_twist)
  note t = crash_leaves_cache_consistent [OF a b c d f,
      of "''/docs/b.pdf''" 100 3 "[''text'']" torn_index_env "[]"]
  from t have m: "files_after ?p \<in> set (crash_states
      (persist_ops ''/docs/b.pdf'' (hex_of 7) 100 3 [''text''] cached_index) cached_files)"
    by blast
  with t have g: "consistent (files_after ?p)"
    by blast
  have h: "load_index (files_after ?p) = JObj cached_index"
    unfolding st using record_file_names [of "hex_of 7"] index_file_names
    by (simp add: load_index_def cached_files_def)
  from a b c d f st g h show ?thesis by (simp only: simp_thms)
qed


end
